theory Spec2Isabelle
  imports Main "HOL-Library.Word"
begin

section \<open>JavaScript values\<close>

text \<open>
  Documents, queries, update specifications and option bags are plain JavaScript objects.
  An object is an association list in the order \<open>Object.entries\<close> enumerates it; a
  property that is not there reads as \<open>undefined\<close>. Numbers are mathematical integers
  (no fractions, no \<open>NaN\<close> value, no infinities). \<open>JOid\<close> is a BSON ObjectId, held
  by its hexadecimal text. Members inherited from a prototype are not modelled.
\<close>

datatype jsval =
    JUndefined
  | JNull
  | JBool bool
  | JNum int
  | JStr string
  | JOid string
  | JArr "jsval list"
  | JObj "(string \<times> jsval) list"

type_synonym document = "(string \<times> jsval) list"
type_synonym byte = "8 word"
type_synonym bytes = "byte list"

text \<open>What \<open>Collection\<close> is handed, stores and returns as a document. The source never
  checks that it is a plain object: an array and an ObjectId are objects too, and
  \<open>insertOne\<close> sets \<open>_id\<close> on them as on any other. The second component of
  \<open>ArrayObj\<close> and \<open>OidObj\<close> holds the properties set on the array or the ObjectId
  besides its elements or its bytes.\<close>

datatype element =
    Plain document
  | ArrayObj "jsval list" document
  | OidObj string document

datatype error =
    TypeError
  | RegExpSyntaxError
  | BSONError
  | SaveDataFailed
  | IndexBackendError
  | WriteFailed

text \<open>What a BSON file deserializes to: the snapshot \<open>{documents: [...]}\<close> that
  \<open>saveData\<close> writes, the \<open>{metadata, data}\<close> object of an index file, or a BSON
  document of another shape. Of the metadata of an index the fields \<open>name\<close>,
  \<open>collection\<close> and \<open>fields\<close> are kept; \<open>options\<close> and \<open>createdAt\<close> are never read.\<close>

record index_meta =
  meta_name :: string
  meta_collection :: string
  meta_fields :: "string list"

datatype bson_root =
    Snapshot "element list"
  | IndexFile index_meta "(string \<times> string list) list"
  | OtherRoot

text \<open>The instance of class \<open>Encryption\<close>: \<open>enabled\<close>, \<open>key\<close>, \<open>ivLength\<close>
  (\<open>algorithm\<close> is the constant \<open>aes-256-cbc\<close>).\<close>

record encryption =
  enc_enabled :: bool
  enc_key :: bytes
  enc_ivLength :: nat

text \<open>The files of one collection as a \<open>Collection\<close> object sees them:
  \<open>data.bson\<close> (absent or unreadable is \<open>None\<close>), whether \<open>fs.writeFile\<close> on it
  succeeds, the state the index manager keeps (index files, cache), and a counter that
  indexes the random values drawn so far (\<open>new ObjectId()\<close>, \<open>crypto.randomBytes\<close>).\<close>

record 'ix store =
  dataFile :: "bytes option"
  dataWritable :: bool
  indexState :: 'ix
  entropy :: nat

text \<open>
  What the source takes from outside itself, as parameters: the engine's relational
  comparison (\<open>IsLessThan\<close> of ECMAScript: true, false or undefined), \<open>RegExp\<close>,
  \<open>String()\<close>, string to integer conversion, the \<open>+\<close> operator, the \<open>bson\<close> library,
  Node's \<open>crypto\<close>, the database's \<open>Encryption\<close> instance, and the two entry points
  of the database's \<open>IndexManager\<close> that \<open>Collection\<close> calls. The index manager reads
  the store and returns its own new state; an exception it throws is \<open>Some\<close> error.
\<close>

record 'ix env =
  isLessThan :: "jsval \<Rightarrow> jsval \<Rightarrow> bool option"
  regExpTest :: "jsval \<Rightarrow> jsval \<Rightarrow> error + bool"
  toStr :: "jsval \<Rightarrow> string"
  stringToInteger :: "string \<Rightarrow> int"
  jsPlus :: "jsval \<Rightarrow> jsval \<Rightarrow> jsval"
  bsonSerialize :: "bson_root \<Rightarrow> bytes option"
  bsonDeserialize :: "bytes \<Rightarrow> bson_root option"
  randomBytes :: "nat \<Rightarrow> nat \<Rightarrow> bytes"
  cipher :: "bytes \<Rightarrow> bytes \<Rightarrow> bytes \<Rightarrow> bytes option"
  decipher :: "bytes \<Rightarrow> bytes \<Rightarrow> bytes \<Rightarrow> bytes option"
  newObjectId :: "nat \<Rightarrow> string"
  objectIdFromString :: "string \<Rightarrow> string option"
  dbEncryption :: encryption
  imUpdateIndex :: "'ix store \<Rightarrow> element \<Rightarrow> element option \<Rightarrow> error option \<times> 'ix"
  imRemoveFromIndex :: "'ix store \<Rightarrow> element \<Rightarrow> error option \<times> 'ix"

subsection \<open>Language primitives\<close>

fun truthy :: "jsval \<Rightarrow> bool" where
  "truthy JUndefined = False"
| "truthy JNull = False"
| "truthy (JBool b) = b"
| "truthy (JNum n) = (n \<noteq> 0)"
| "truthy (JStr s) = (s \<noteq> [])"
| "truthy (JOid h) = True"
| "truthy (JArr xs) = True"
| "truthy (JObj kvs) = True"

text \<open>\<open>typeof v === 'object' && v !== null\<close>\<close>

fun isObject :: "jsval \<Rightarrow> bool" where
  "isObject (JOid h) = True"
| "isObject (JArr xs) = True"
| "isObject (JObj kvs) = True"
| "isObject v = False"

text \<open>\<open>a === b\<close>. Primitives compare by value. Objects, arrays and ObjectIds compare by
  reference: a value read from a file and a value the caller passes are never the same
  object, so the comparison is false.\<close>

fun strictEquals :: "jsval \<Rightarrow> jsval \<Rightarrow> bool" where
  "strictEquals JUndefined JUndefined = True"
| "strictEquals JNull JNull = True"
| "strictEquals (JBool a) (JBool b) = (a = b)"
| "strictEquals (JNum a) (JNum b) = (a = b)"
| "strictEquals (JStr a) (JStr b) = (a = b)"
| "strictEquals a b = False"

text \<open>\<open>doc[key]\<close> on a plain object.\<close>

definition getField :: "document \<Rightarrow> string \<Rightarrow> jsval" where
  "getField doc k = (case map_of doc k of None \<Rightarrow> JUndefined | Some v \<Rightarrow> v)"

text \<open>\<open>obj[key] = v\<close>: an existing property keeps its place, a new one goes last.\<close>

fun setField :: "(string \<times> 'a) list \<Rightarrow> string \<Rightarrow> 'a \<Rightarrow> (string \<times> 'a) list" where
  "setField [] k v = [(k, v)]"
| "setField ((k', v') # rest) k v =
     (if k' = k then (k, v) # rest else (k', v') # setField rest k v)"

text \<open>\<open>delete obj[key]\<close>\<close>

definition deleteField :: "(string \<times> 'a) list \<Rightarrow> string \<Rightarrow> (string \<times> 'a) list" where
  "deleteField doc k = filter (\<lambda>kv. fst kv \<noteq> k) doc"

fun digits :: "nat \<Rightarrow> nat \<Rightarrow> string" where
  "digits 0 n = []"
| "digits (Suc fuel) n =
     (if n < 10 then [char_of (48 + n)]
      else digits fuel (n div 10) @ [char_of (48 + n mod 10)])"

text \<open>The decimal text of an array index (\<open>n\<close> has at most \<open>n + 1\<close> digits).\<close>

definition indexKey :: "nat \<Rightarrow> string" where
  "indexKey n = digits (Suc n) n"

definition indexed :: "jsval list \<Rightarrow> (string \<times> jsval) list" where
  "indexed xs = zip (map indexKey [0..<length xs]) xs"

text \<open>The twelve bytes of an ObjectId, read off its hexadecimal text two digits at a
  time (a character that is no digit counts as 0, missing digits as 0).\<close>

definition hexValue :: "char \<Rightarrow> int" where
  "hexValue c =
     (let n = int (of_char c :: nat) in
      if 48 \<le> n \<and> n \<le> 57 then n - 48
      else if 97 \<le> n \<and> n \<le> 102 then n - 87
      else if 65 \<le> n \<and> n \<le> 70 then n - 55
      else 0)"

definition oidBytes :: "string \<Rightarrow> jsval list" where
  "oidBytes h =
     map (\<lambda>i. JNum (16 * (if 2 * i < length h then hexValue (h ! (2 * i)) else 0)
                     + (if 2 * i + 1 < length h then hexValue (h ! (2 * i + 1)) else 0)))
       [0..<12]"

text \<open>\<open>Object.entries(v)\<close> for a value that is neither \<open>null\<close> nor \<open>undefined\<close>
  (on those it throws; the callers check first). The \<open>bson\<close> library is not part of
  the source: its ObjectId keeps its bytes in one own enumerable property, \<open>buffer\<close>, a
  \<open>Uint8Array\<close>, which stands here as the array of its bytes.\<close>

fun entries :: "jsval \<Rightarrow> (string \<times> jsval) list" where
  "entries (JObj kvs) = kvs"
| "entries (JArr xs) = indexed xs"
| "entries (JStr s) = indexed (map (\<lambda>c. JStr [c]) s)"
| "entries (JOid h) = [(''buffer'', JArr (oidBytes h))]"
| "entries v = []"

text \<open>The own enumerable properties of a document, as \<open>{...doc}\<close> copies them.\<close>

fun ownProps :: "element \<Rightarrow> document" where
  "ownProps (Plain d) = d"
| "ownProps (ArrayObj xs props) = indexed xs @ props"
| "ownProps (OidObj h props) = entries (JOid h) @ props"

text \<open>\<open>doc[key]\<close> on a document; an array has its \<open>length\<close> besides.\<close>

fun elemGet :: "element \<Rightarrow> string \<Rightarrow> jsval" where
  "elemGet (Plain d) k = getField d k"
| "elemGet (ArrayObj xs props) k =
     (case map_of (indexed xs @ props) k of
        Some v \<Rightarrow> v
      | None \<Rightarrow> (if k = ''length'' then JNum (int (length xs)) else JUndefined))"
| "elemGet (OidObj h props) k = getField (entries (JOid h) @ props) k"

text \<open>\<open>document._id = v\<close>\<close>

fun setId :: "element \<Rightarrow> jsval \<Rightarrow> element" where
  "setId (Plain d) v = Plain (setField d ''_id'' v)"
| "setId (ArrayObj xs props) v = ArrayObj xs (setField props ''_id'' v)"
| "setId (OidObj h props) v = OidObj h (setField props ''_id'' v)"

text \<open>A value passed where a document is expected: an object is taken as it is, a
  primitive is no object.\<close>

fun toElement :: "jsval \<Rightarrow> element option" where
  "toElement (JObj d) = Some (Plain d)"
| "toElement (JArr xs) = Some (ArrayObj xs [])"
| "toElement (JOid h) = Some (OidObj h [])"
| "toElement v = None"

text \<open>\<open>ToIntegerOrInfinity\<close>, as \<open>Array.prototype.slice\<close> applies it to its arguments.\<close>

definition toInteger :: "'ix env \<Rightarrow> jsval \<Rightarrow> int" where
  "toInteger env v =
     (case v of
        JNum n \<Rightarrow> n
      | JBool b \<Rightarrow> (if b then 1 else 0)
      | JNull \<Rightarrow> 0
      | JUndefined \<Rightarrow> 0
      | JStr s \<Rightarrow> stringToInteger env s
      | _ \<Rightarrow> stringToInteger env (toStr env v))"

text \<open>\<open>xs.slice(start, end)\<close>; \<open>None\<close> is an omitted \<open>end\<close>. A negative argument counts
  from the end of the array.\<close>

definition slice :: "'a list \<Rightarrow> int \<Rightarrow> int option \<Rightarrow> 'a list" where
  "slice xs start fin =
     (let len = int (length xs);
          k = (if start < 0 then max (len + start) 0 else min start len);
          e = (case fin of None \<Rightarrow> len
               | Some f \<Rightarrow> (if f < 0 then max (len + f) 0 else min f len))
      in take (nat (e - k)) (drop (nat k) xs))"

fun containsString :: "string \<Rightarrow> string \<Rightarrow> bool" where
  "containsString [] t = (t = [])"
| "containsString (c # cs) t = (take (length t) (c # cs) = t \<or> containsString cs t)"

text \<open>\<open>value.includes(fieldValue)\<close>: \<open>Array.prototype.includes\<close> on an array,
  \<open>String.prototype.includes\<close> on a string, a \<open>TypeError\<close> on anything else.\<close>

definition jsIncludes :: "'ix env \<Rightarrow> jsval \<Rightarrow> jsval \<Rightarrow> error + bool" where
  "jsIncludes env v fieldValue =
     (case v of
        JArr xs \<Rightarrow> Inr (list_ex (\<lambda>x. strictEquals x fieldValue) xs)
      | JStr s \<Rightarrow> Inr (containsString s (toStr env fieldValue))
      | _ \<Rightarrow> Inl TypeError)"

text \<open>\<open>Array.prototype.sort(cmp)\<close>: the sort is stable. For a comparator that is a
  consistent ordering every stable sort returns the same array; an insertion sort stands
  for it.\<close>

fun insertSorted :: "('a \<Rightarrow> 'a \<Rightarrow> int) \<Rightarrow> 'a \<Rightarrow> 'a list \<Rightarrow> 'a list" where
  "insertSorted cmp x [] = [x]"
| "insertSorted cmp x (y # ys) =
     (if cmp x y > 0 then y # insertSorted cmp x ys else x # y # ys)"

definition arraySort :: "('a \<Rightarrow> 'a \<Rightarrow> int) \<Rightarrow> 'a list \<Rightarrow> 'a list" where
  "arraySort cmp xs = foldr (insertSorted cmp) xs []"

section \<open>Encryption\<close>

text \<open>\<open>Encryption.encrypt\<close>: the identity when disabled; otherwise a random IV, then
  IV followed by the ciphertext. A cipher failure is caught and the data returned as it
  is. The second component is the entropy counter after the call.\<close>

definition encrypt :: "'ix env \<Rightarrow> encryption \<Rightarrow> nat \<Rightarrow> bytes \<Rightarrow> bytes \<times> nat" where
  "encrypt env enc n dat =
     (if \<not> enc_enabled enc then (dat, n)
      else
        (let iv = randomBytes env n (enc_ivLength enc) in
         case cipher env (enc_key enc) iv dat of
           None \<Rightarrow> (dat, Suc n)
         | Some encrypted \<Rightarrow> (iv @ encrypted, Suc n)))"

text \<open>\<open>Encryption.decrypt\<close>: the identity when disabled; data shorter than the IV is
  returned as it is; a failed decipher is caught and the data returned as it is.\<close>

definition decrypt :: "'ix env \<Rightarrow> encryption \<Rightarrow> bytes \<Rightarrow> bytes" where
  "decrypt env enc encryptedData =
     (if \<not> enc_enabled enc then encryptedData
      else if length encryptedData < enc_ivLength enc then encryptedData
      else
        (let iv = take (enc_ivLength enc) encryptedData;
             encrypted = drop (enc_ivLength enc) encryptedData
         in case decipher env (enc_key enc) iv encrypted of
              None \<Rightarrow> encryptedData
            | Some decrypted \<Rightarrow> decrypted))"

text \<open>The constructor \<open>new Encryption(key)\<close>: enabled for a truthy key other than
  \<open>'default-encryption-key'\<close>, with the SHA-256 digest of \<open>String(key)\<close> as the cipher
  key (\<open>digest\<close> is Node's hash); the IV length is 16.\<close>

definition newEncryption :: "(string \<Rightarrow> bytes) \<Rightarrow> (jsval \<Rightarrow> string) \<Rightarrow> jsval \<Rightarrow> encryption" where
  "newEncryption digest str k =
     (if truthy k \<and> k \<noteq> JStr ''default-encryption-key''
      then \<lparr> enc_enabled = True, enc_key = digest (str k), enc_ivLength = 16 \<rparr>
      else \<lparr> enc_enabled = False, enc_key = [], enc_ivLength = 16 \<rparr>)"

section \<open>Collection: the query matcher\<close>

definition matchOperator :: "'ix env \<Rightarrow> jsval \<Rightarrow> string \<Rightarrow> jsval \<Rightarrow> error + bool" where
  "matchOperator env fieldValue operator v =
     (if operator = ''$eq'' then Inr (strictEquals fieldValue v)
      else if operator = ''$ne'' then Inr (\<not> strictEquals fieldValue v)
      else if operator = ''$gt'' then Inr (isLessThan env v fieldValue = Some True)
      else if operator = ''$gte'' then Inr (isLessThan env fieldValue v = Some False)
      else if operator = ''$lt'' then Inr (isLessThan env fieldValue v = Some True)
      else if operator = ''$lte'' then Inr (isLessThan env v fieldValue = Some False)
      else if operator = ''$in'' then jsIncludes env v fieldValue
      else if operator = ''$nin'' then
        (case jsIncludes env v fieldValue of Inl e \<Rightarrow> Inl e | Inr b \<Rightarrow> Inr (\<not> b))
      else if operator = ''$regex'' then regExpTest env v fieldValue
      else Inr False)"

text \<open>The inner loop of \<open>matchDocument\<close> over the operators of one field:
  \<open>Inr False\<close> is its \<open>return false\<close>, \<open>Inr True\<close> is falling out of the loop.\<close>

fun matchOperators :: "'ix env \<Rightarrow> jsval \<Rightarrow> (string \<times> jsval) list \<Rightarrow> error + bool" where
  "matchOperators env fieldValue [] = Inr True"
| "matchOperators env fieldValue ((operator, opValue) # rest) =
     (case matchOperator env fieldValue operator opValue of
        Inl e \<Rightarrow> Inl e
      | Inr b \<Rightarrow> (if \<not> b then Inr False else matchOperators env fieldValue rest))"

text \<open>The last two branches of the loop body of \<open>matchDocument\<close>, for a key that is
  neither \<open>$or\<close> nor \<open>$and\<close>.\<close>

definition matchField :: "'ix env \<Rightarrow> element \<Rightarrow> string \<Rightarrow> jsval \<Rightarrow> error + bool" where
  "matchField env doc k v =
     (if isObject v then matchOperators env (elemGet doc k) (entries v)
      else Inr (strictEquals (elemGet doc k) v))"

text \<open>The loop over entries none of whose keys is \<open>$or\<close> or \<open>$and\<close> (the entries of an
  array, a string or an ObjectId used as a query: their keys are indices or
  \<open>buffer\<close>).\<close>

fun matchFlat :: "'ix env \<Rightarrow> element \<Rightarrow> (string \<times> jsval) list \<Rightarrow> error + bool" where
  "matchFlat env doc [] = Inr True"
| "matchFlat env doc ((k, v) # rest) =
     (case matchField env doc k v of
        Inl e \<Rightarrow> Inl e
      | Inr b \<Rightarrow> (if \<not> b then Inr False else matchFlat env doc rest))"

text \<open>\<open>matchDocument(doc, query)\<close>. \<open>matchEntries\<close> is its loop over
  \<open>Object.entries(query)\<close>, \<open>matchSome\<close> and \<open>matchEvery\<close> are \<open>value.some(...)\<close> and
  \<open>value.every(...)\<close>, which stop at the first decisive element and pass an exception on.
  \<open>Object.entries\<close> of \<open>null\<close> or \<open>undefined\<close> and \<open>some\<close>/\<open>every\<close> on a value that is
  not an array throw a \<open>TypeError\<close>.\<close>

fun matchDocument :: "'ix env \<Rightarrow> element \<Rightarrow> jsval \<Rightarrow> error + bool"
  and matchEntries :: "'ix env \<Rightarrow> element \<Rightarrow> (string \<times> jsval) list \<Rightarrow> error + bool"
  and matchSome :: "'ix env \<Rightarrow> element \<Rightarrow> jsval list \<Rightarrow> error + bool"
  and matchEvery :: "'ix env \<Rightarrow> element \<Rightarrow> jsval list \<Rightarrow> error + bool"
where
  "matchDocument env doc (JObj kvs) = matchEntries env doc kvs"
| "matchDocument env doc JUndefined = Inl TypeError"
| "matchDocument env doc JNull = Inl TypeError"
| "matchDocument env doc (JBool b) = matchFlat env doc (entries (JBool b))"
| "matchDocument env doc (JNum n) = matchFlat env doc (entries (JNum n))"
| "matchDocument env doc (JStr s) = matchFlat env doc (entries (JStr s))"
| "matchDocument env doc (JOid h) = matchFlat env doc (entries (JOid h))"
| "matchDocument env doc (JArr xs) = matchFlat env doc (entries (JArr xs))"
| "matchEntries env doc [] = Inr True"
| "matchEntries env doc ((k, v) # rest) =
     (if k = ''$or'' then
        (case v of
           JArr conds \<Rightarrow>
             (case matchSome env doc conds of
                Inl e \<Rightarrow> Inl e
              | Inr b \<Rightarrow> (if \<not> b then Inr False else matchEntries env doc rest))
         | _ \<Rightarrow> Inl TypeError)
      else if k = ''$and'' then
        (case v of
           JArr conds \<Rightarrow>
             (case matchEvery env doc conds of
                Inl e \<Rightarrow> Inl e
              | Inr b \<Rightarrow> (if \<not> b then Inr False else matchEntries env doc rest))
         | _ \<Rightarrow> Inl TypeError)
      else
        (case matchField env doc k v of
           Inl e \<Rightarrow> Inl e
         | Inr b \<Rightarrow> (if \<not> b then Inr False else matchEntries env doc rest)))"
| "matchSome env doc [] = Inr False"
| "matchSome env doc (c # cs) =
     (case matchDocument env doc c of
        Inl e \<Rightarrow> Inl e
      | Inr b \<Rightarrow> (if b then Inr True else matchSome env doc cs))"
| "matchEvery env doc [] = Inr True"
| "matchEvery env doc (c # cs) =
     (case matchDocument env doc c of
        Inl e \<Rightarrow> Inl e
      | Inr b \<Rightarrow> (if \<not> b then Inr False else matchEvery env doc cs))"

section \<open>Collection: reading and writing the snapshot\<close>

text \<open>\<open>loadData\<close>: a missing or unreadable file gives the empty array; the bytes go
  through \<open>decrypt\<close>; bytes that do not deserialize give the empty array (the source
  logs a warning); otherwise the result is \<open>parsed.documents || []\<close>.
  \<open>readSnapshot\<close> is the body of \<open>loadData\<close> after the file has been read.\<close>

definition readSnapshot :: "'ix env \<Rightarrow> bytes option \<Rightarrow> element list" where
  "readSnapshot env file =
     (case file of
        None \<Rightarrow> []
      | Some encryptedData \<Rightarrow>
          (let decryptedData = decrypt env (dbEncryption env) encryptedData in
           case bsonDeserialize env decryptedData of
             None \<Rightarrow> []
           | Some parsed \<Rightarrow> (case parsed of Snapshot docs \<Rightarrow> docs | _ \<Rightarrow> [])))"

definition loadData :: "'ix env \<Rightarrow> 'ix store \<Rightarrow> element list" where
  "loadData env st = readSnapshot env (dataFile st)"

text \<open>\<open>saveData\<close>: serialize \<open>{documents: data}\<close>, encrypt, write the file; any
  failure is rethrown as \<open>Failed to save data\<close>. The store is returned in both cases
  (the IV has been drawn before a write can fail).\<close>

definition saveData :: "'ix env \<Rightarrow> 'ix store \<Rightarrow> element list \<Rightarrow> error option \<times> 'ix store" where
  "saveData env st dat =
     (case bsonSerialize env (Snapshot dat) of
        None \<Rightarrow> (Some SaveDataFailed, st)
      | Some bsonData \<Rightarrow>
          (case encrypt env (dbEncryption env) (entropy st) bsonData of
             (encryptedData, n) \<Rightarrow>
               (if dataWritable st
                then (None, st\<lparr>dataFile := Some encryptedData, entropy := n\<rparr>)
                else (Some SaveDataFailed, st\<lparr>entropy := n\<rparr>))))"

section \<open>Collection: find and count\<close>

text \<open>\<open>documents.filter(doc => this.matchDocument(doc, query))\<close>; an exception of the
  predicate ends the call.\<close>

fun filterDocuments :: "'ix env \<Rightarrow> jsval \<Rightarrow> element list \<Rightarrow> error + element list" where
  "filterDocuments env query [] = Inr []"
| "filterDocuments env query (d # ds) =
     (case matchDocument env d query of
        Inl e \<Rightarrow> Inl e
      | Inr b \<Rightarrow>
          (case filterDocuments env query ds of
             Inl e \<Rightarrow> Inl e
           | Inr rs \<Rightarrow> Inr (if b then d # rs else rs)))"

text \<open>The comparator of \<open>sortDocuments\<close>, over \<open>Object.entries(sort)\<close>.\<close>

fun compareDocuments :: "'ix env \<Rightarrow> (string \<times> jsval) list \<Rightarrow> element \<Rightarrow> element \<Rightarrow> int" where
  "compareDocuments env [] a b = 0"
| "compareDocuments env ((field, direction) # rest) a b =
     (let aVal = elemGet a field; bVal = elemGet b field in
      if isLessThan env aVal bVal = Some True
      then (if strictEquals direction (JNum 1) then - 1 else 1)
      else if isLessThan env bVal aVal = Some True
      then (if strictEquals direction (JNum 1) then 1 else - 1)
      else compareDocuments env rest a b)"

definition sortDocuments :: "'ix env \<Rightarrow> element list \<Rightarrow> jsval \<Rightarrow> element list" where
  "sortDocuments env documents sortSpec =
     arraySort (compareDocuments env (entries sortSpec)) documents"

text \<open>A parameter with the default \<open>{}\<close>: the default stands in for \<open>undefined\<close>.\<close>

definition orEmptyObject :: "jsval \<Rightarrow> jsval" where
  "orEmptyObject v = (if v = JUndefined then JObj [] else v)"

text \<open>\<open>find(query = {}, options = {})\<close>: filter, then \<open>sort\<close> if given, then
  \<open>slice(0, limit)\<close> if \<open>limit\<close> is truthy, then \<open>slice(skip)\<close> if \<open>skip\<close> is truthy.\<close>

definition find_docs :: "'ix env \<Rightarrow> 'ix store \<Rightarrow> jsval \<Rightarrow> document \<Rightarrow> error + element list" where
  "find_docs env st query options =
     (let documents = loadData env st in
      case filterDocuments env (orEmptyObject query) documents of
        Inl e \<Rightarrow> Inl e
      | Inr results \<Rightarrow>
          (let results1 = (if truthy (getField options ''sort'')
                           then sortDocuments env results (getField options ''sort'')
                           else results);
               results2 = (if truthy (getField options ''limit'')
                           then slice results1 0 (Some (toInteger env (getField options ''limit'')))
                           else results1);
               results3 = (if truthy (getField options ''skip'')
                           then slice results2 (toInteger env (getField options ''skip'')) None
                           else results2)
           in Inr results3))"

text \<open>\<open>count(query = {})\<close>\<close>

definition count :: "'ix env \<Rightarrow> 'ix store \<Rightarrow> jsval \<Rightarrow> error + nat" where
  "count env st query =
     (let documents = loadData env st in
      case filterDocuments env (orEmptyObject query) documents of
        Inl e \<Rightarrow> Inl e
      | Inr results \<Rightarrow> Inr (length results))"

section \<open>Collection: update application\<close>

text \<open>\<open>Object.entries(v)\<close> and \<open>Object.keys(v)\<close> throw on \<open>null\<close> and
  \<open>undefined\<close>.\<close>

definition ownEntries :: "jsval \<Rightarrow> error + (string \<times> jsval) list" where
  "ownEntries v = (if v = JNull \<or> v = JUndefined then Inl TypeError else Inr (entries v))"

text \<open>\<open>Object.assign(target, source)\<close>; a \<open>null\<close> or \<open>undefined\<close> source is skipped.\<close>

definition objectAssign :: "document \<Rightarrow> jsval \<Rightarrow> document" where
  "objectAssign target source =
     (if source = JNull \<or> source = JUndefined then target
      else fold (\<lambda>kv acc. setField acc (fst kv) (snd kv)) (entries source) target)"

text \<open>One step of the \<open>$inc\<close> loop: \<open>updated[field] = (updated[field] || 0) + amount\<close>.\<close>

definition incField :: "'ix env \<Rightarrow> document \<Rightarrow> string \<Rightarrow> jsval \<Rightarrow> document" where
  "incField env updated field amount =
     setField updated field
       (jsPlus env (if truthy (getField updated field) then getField updated field else JNum 0)
          amount)"

text \<open>One step of the \<open>$push\<close> loop: a field that is not an array becomes \<open>[]\<close>, then
  the item is pushed.\<close>

definition pushField :: "document \<Rightarrow> string \<Rightarrow> jsval \<Rightarrow> document" where
  "pushField updated field item =
     setField updated field
       (JArr ((case getField updated field of JArr xs \<Rightarrow> xs | _ \<Rightarrow> []) @ [item]))"

text \<open>The \<open>switch\<close> of \<open>applyUpdate\<close>; a key that is no operator is skipped.\<close>

definition applyOperator :: "'ix env \<Rightarrow> document \<Rightarrow> string \<Rightarrow> jsval \<Rightarrow> error + document" where
  "applyOperator env updated operator v =
     (if operator = ''$set'' then Inr (objectAssign updated v)
      else if operator = ''$unset'' then
        (case ownEntries v of
           Inl e \<Rightarrow> Inl e
         | Inr kvs \<Rightarrow> Inr (fold (\<lambda>kv acc. deleteField acc (fst kv)) kvs updated))
      else if operator = ''$inc'' then
        (case ownEntries v of
           Inl e \<Rightarrow> Inl e
         | Inr kvs \<Rightarrow> Inr (fold (\<lambda>kv acc. incField env acc (fst kv) (snd kv)) kvs updated))
      else if operator = ''$push'' then
        (case ownEntries v of
           Inl e \<Rightarrow> Inl e
         | Inr kvs \<Rightarrow> Inr (fold (\<lambda>kv acc. pushField acc (fst kv) (snd kv)) kvs updated))
      else Inr updated)"

fun applyOperators :: "'ix env \<Rightarrow> document \<Rightarrow> (string \<times> jsval) list \<Rightarrow> error + document" where
  "applyOperators env updated [] = Inr updated"
| "applyOperators env updated ((operator, v) # rest) =
     (case applyOperator env updated operator v of
        Inl e \<Rightarrow> Inl e
      | Inr updated' \<Rightarrow> applyOperators env updated' rest)"

text \<open>\<open>applyUpdate(doc, update)\<close>: a shallow copy of \<open>doc\<close>, then the operators of
  \<open>update\<close> in order. The argument \<open>doc\<close> here is the copy \<open>{...doc}\<close> at its start,
  the own properties of the document. The model returns the copy; that \<open>$push\<close> also
  grows the array the old document shares with the copy is not tracked.\<close>

definition applyUpdate :: "'ix env \<Rightarrow> document \<Rightarrow> document \<Rightarrow> error + document" where
  "applyUpdate env doc update = applyOperators env doc update"

section \<open>Collection: insert, update, delete\<close>

text \<open>The head of \<open>insertOne\<close> and the loop body of \<open>insertMany\<close>: a falsy \<open>_id\<close>
  is replaced by a new ObjectId, a string \<open>_id\<close> by the ObjectId it denotes
  (\<open>new ObjectId(s)\<close> throws on a string that denotes none). The document is changed
  in place; the result is the document after the change.\<close>

definition assignId :: "'ix env \<Rightarrow> nat \<Rightarrow> element \<Rightarrow> (error + element) \<times> nat" where
  "assignId env n document =
     (if \<not> truthy (elemGet document ''_id'')
      then (Inr (setId document (JOid (newObjectId env n))), Suc n)
      else
        (case elemGet document ''_id'' of
           JStr s \<Rightarrow>
             (case objectIdFromString env s of
                None \<Rightarrow> (Inl BSONError, n)
              | Some h \<Rightarrow> (Inr (setId document (JOid h)), n))
         | _ \<Rightarrow> (Inr document, n)))"

text \<open>\<open>insertOne(document)\<close> for a document that is an object.\<close>

definition insertDocument :: "'ix env \<Rightarrow> 'ix store \<Rightarrow> element \<Rightarrow> (error + element) \<times> 'ix store" where
  "insertDocument env st document =
     (case assignId env (entropy st) document of
        (Inl e, n) \<Rightarrow> (Inl e, st\<lparr>entropy := n\<rparr>)
      | (Inr document', n) \<Rightarrow>
          (let st0 = st\<lparr>entropy := n\<rparr>;
               documents = loadData env st0 @ [document']
           in case saveData env st0 documents of
                (Some e, st1) \<Rightarrow> (Inl e, st1)
              | (None, st1) \<Rightarrow>
                  (case imUpdateIndex env st1 document' None of
                     (Some e, ix) \<Rightarrow> (Inl e, st1\<lparr>indexState := ix\<rparr>)
                   | (None, ix) \<Rightarrow> (Inr document', st1\<lparr>indexState := ix\<rparr>))))"

text \<open>\<open>insertOne(document)\<close> for any value, as \<open>updateOne\<close> may pass one. A plain
  object, an array and an ObjectId go the same way. Reading \<open>_id\<close> of \<open>null\<close> or
  \<open>undefined\<close> throws; on another primitive \<open>_id\<close> reads as \<open>undefined\<close>, the new
  ObjectId is made, and the assignment throws (a class body is strict code).\<close>

definition insertOne :: "'ix env \<Rightarrow> 'ix store \<Rightarrow> jsval \<Rightarrow> (error + element) \<times> 'ix store" where
  "insertOne env st document =
     (case toElement document of
        Some d \<Rightarrow> insertDocument env st d
      | None \<Rightarrow>
          (if document = JUndefined \<or> document = JNull then (Inl TypeError, st)
           else (Inl TypeError, st\<lparr>entropy := Suc (entropy st)\<rparr>)))"

text \<open>The first loop of \<open>insertMany\<close>. The array handed to \<open>insertMany\<close> holds
  references to the caller's objects, and one object can be listed more than once:
  \<open>objects\<close> are the objects, \<open>refs\<close> is the array, each entry the position of its
  object in \<open>objects\<close>. The loop changes the objects in place. An entry that points
  outside \<open>objects\<close> stands for \<open>undefined\<close>, on which reading \<open>_id\<close> throws.\<close>

fun assignIds ::
  "'ix env \<Rightarrow> nat \<Rightarrow> element list \<Rightarrow> nat list \<Rightarrow> (error + element list) \<times> nat" where
  "assignIds env n objects [] = (Inr objects, n)"
| "assignIds env n objects (r # refs) =
     (if r < length objects then
        (case assignId env n (objects ! r) of
           (Inl e, n') \<Rightarrow> (Inl e, n')
         | (Inr d', n') \<Rightarrow> assignIds env n' (objects[r := d']) refs)
      else (Inl TypeError, n))"

text \<open>\<open>for (const doc of documents) await indexManager.updateIndex(name, doc)\<close>\<close>

fun updateIndexEach :: "'ix env \<Rightarrow> 'ix store \<Rightarrow> element list \<Rightarrow> error option \<times> 'ix store" where
  "updateIndexEach env st [] = (None, st)"
| "updateIndexEach env st (d # ds) =
     (case imUpdateIndex env st d None of
        (Some e, ix) \<Rightarrow> (Some e, st\<lparr>indexState := ix\<rparr>)
      | (None, ix) \<Rightarrow> updateIndexEach env (st\<lparr>indexState := ix\<rparr>) ds)"

text \<open>\<open>insertMany(documents)\<close>, the array given by \<open>objects\<close> and \<open>refs\<close> as above;
  \<open>documents\<close> below is the array after the first loop, each entry read through its
  reference.\<close>

definition insertMany ::
  "'ix env \<Rightarrow> 'ix store \<Rightarrow> element list \<Rightarrow> nat list \<Rightarrow> (error + element list) \<times> 'ix store" where
  "insertMany env st objects refs =
     (case assignIds env (entropy st) objects refs of
        (Inl e, n) \<Rightarrow> (Inl e, st\<lparr>entropy := n\<rparr>)
      | (Inr objects', n) \<Rightarrow>
          (let st0 = st\<lparr>entropy := n\<rparr>;
               documents = map (\<lambda>r. objects' ! r) refs;
               existingDocs = loadData env st0 @ documents
           in case saveData env st0 existingDocs of
                (Some e, st1) \<Rightarrow> (Inl e, st1)
              | (None, st1) \<Rightarrow>
                  (case updateIndexEach env st1 documents of
                     (Some e, st2) \<Rightarrow> (Inl e, st2)
                   | (None, st2) \<Rightarrow> (Inr documents, st2))))"

text \<open>\<open>documents.findIndex(doc => this.matchDocument(doc, query))\<close>; \<open>None\<close> is
  \<open>-1\<close>.\<close>

fun findIndex :: "'ix env \<Rightarrow> jsval \<Rightarrow> element list \<Rightarrow> error + nat option" where
  "findIndex env query [] = Inr None"
| "findIndex env query (d # ds) =
     (case matchDocument env d query of
        Inl e \<Rightarrow> Inl e
      | Inr b \<Rightarrow>
          (if b then Inr (Some 0)
           else (case findIndex env query ds of
                   Inl e \<Rightarrow> Inl e
                 | Inr None \<Rightarrow> Inr None
                 | Inr (Some i) \<Rightarrow> Inr (Some (Suc i)))))"

text \<open>\<open>update.$set || update\<close>, the value \<open>updateOne\<close> hands to \<open>insertOne\<close> when
  it upserts.\<close>

definition upsertPayload :: "document \<Rightarrow> jsval" where
  "upsertPayload update =
     (if truthy (getField update ''$set'') then getField update ''$set'' else JObj update)"

text \<open>\<open>updateOne(query, update, options = {})\<close>. The result is the updated document,
  the inserted one, or \<open>null\<close> (\<open>None\<close>). \<open>applyUpdate\<close> works on the copy
  \<open>{...oldDoc}\<close>, a plain object.\<close>

definition updateOne ::
  "'ix env \<Rightarrow> 'ix store \<Rightarrow> jsval \<Rightarrow> document \<Rightarrow> document \<Rightarrow>
     (error + element option) \<times> 'ix store" where
  "updateOne env st query update options =
     (let documents = loadData env st in
      case findIndex env query documents of
        Inl e \<Rightarrow> (Inl e, st)
      | Inr None \<Rightarrow>
          (if truthy (getField options ''upsert'')
           then (case insertOne env st (upsertPayload update) of
                   (Inl e, st') \<Rightarrow> (Inl e, st')
                 | (Inr inserted, st') \<Rightarrow> (Inr (Some inserted), st'))
           else (Inr None, st))
      | Inr (Some index) \<Rightarrow>
          (let oldDoc = documents ! index in
           case applyUpdate env (ownProps oldDoc) update of
             Inl e \<Rightarrow> (Inl e, st)
           | Inr updatedDoc \<Rightarrow>
               (case saveData env st (documents[index := Plain updatedDoc]) of
                  (Some e, st1) \<Rightarrow> (Inl e, st1)
                | (None, st1) \<Rightarrow>
                    (case imUpdateIndex env st1 (Plain updatedDoc) (Some oldDoc) of
                       (Some e, ix) \<Rightarrow> (Inl e, st1\<lparr>indexState := ix\<rparr>)
                     | (None, ix) \<Rightarrow>
                         (Inr (Some (Plain updatedDoc)), st1\<lparr>indexState := ix\<rparr>)))))"

text \<open>\<open>updateMany(query, update)\<close>. The loop updates the indexes document by
  document; the snapshot is saved once, after the loop, if a document matched. The loop
  returns the new array and the results.\<close>

fun updateManyLoop ::
  "'ix env \<Rightarrow> 'ix store \<Rightarrow> jsval \<Rightarrow> document \<Rightarrow> element list \<Rightarrow>
     (error + element list \<times> element list) \<times> 'ix store" where
  "updateManyLoop env st query update [] = (Inr ([], []), st)"
| "updateManyLoop env st query update (d # ds) =
     (case matchDocument env d query of
        Inl e \<Rightarrow> (Inl e, st)
      | Inr b \<Rightarrow>
          (if b then
             (case applyUpdate env (ownProps d) update of
                Inl e \<Rightarrow> (Inl e, st)
              | Inr updatedDoc \<Rightarrow>
                  (case imUpdateIndex env st (Plain updatedDoc) (Some d) of
                     (Some e, ix) \<Rightarrow> (Inl e, st\<lparr>indexState := ix\<rparr>)
                   | (None, ix) \<Rightarrow>
                       (case updateManyLoop env (st\<lparr>indexState := ix\<rparr>) query update ds of
                          (Inl e, st') \<Rightarrow> (Inl e, st')
                        | (Inr (docs, results), st') \<Rightarrow>
                            (Inr (Plain updatedDoc # docs, Plain updatedDoc # results), st'))))
           else
             (case updateManyLoop env st query update ds of
                (Inl e, st') \<Rightarrow> (Inl e, st')
              | (Inr (docs, results), st') \<Rightarrow> (Inr (d # docs, results), st'))))"

definition updateMany ::
  "'ix env \<Rightarrow> 'ix store \<Rightarrow> jsval \<Rightarrow> document \<Rightarrow> (error + element list) \<times> 'ix store" where
  "updateMany env st query update =
     (let documents = loadData env st in
      case updateManyLoop env st query update documents of
        (Inl e, st1) \<Rightarrow> (Inl e, st1)
      | (Inr (documents', results), st1) \<Rightarrow>
          (if length results > 0 then
             (case saveData env st1 documents' of
                (Some e, st2) \<Rightarrow> (Inl e, st2)
              | (None, st2) \<Rightarrow> (Inr results, st2))
           else (Inr results, st1)))"

text \<open>\<open>deleteOne(query)\<close>: \<open>documents.splice(index, 1)\<close>, save, remove from the
  indexes. The result is the deleted document or \<open>null\<close> (\<open>None\<close>).\<close>

definition deleteOne ::
  "'ix env \<Rightarrow> 'ix store \<Rightarrow> jsval \<Rightarrow> (error + element option) \<times> 'ix store" where
  "deleteOne env st query =
     (let documents = loadData env st in
      case findIndex env query documents of
        Inl e \<Rightarrow> (Inl e, st)
      | Inr None \<Rightarrow> (Inr None, st)
      | Inr (Some index) \<Rightarrow>
          (let deleted = documents ! index;
               remaining = take index documents @ drop (Suc index) documents
           in case saveData env st remaining of
                (Some e, st1) \<Rightarrow> (Inl e, st1)
              | (None, st1) \<Rightarrow>
                  (case imRemoveFromIndex env st1 deleted of
                     (Some e, ix) \<Rightarrow> (Inl e, st1\<lparr>indexState := ix\<rparr>)
                   | (None, ix) \<Rightarrow> (Inr (Some deleted), st1\<lparr>indexState := ix\<rparr>))))"

text \<open>The loop of \<open>deleteMany\<close> that fills \<open>toDelete\<close> and \<open>remaining\<close>.\<close>

fun partitionDocuments ::
  "'ix env \<Rightarrow> jsval \<Rightarrow> element list \<Rightarrow> error + element list \<times> element list" where
  "partitionDocuments env query [] = Inr ([], [])"
| "partitionDocuments env query (d # ds) =
     (case matchDocument env d query of
        Inl e \<Rightarrow> Inl e
      | Inr b \<Rightarrow>
          (case partitionDocuments env query ds of
             Inl e \<Rightarrow> Inl e
           | Inr (toDelete, remaining) \<Rightarrow>
               Inr (if b then (d # toDelete, remaining) else (toDelete, d # remaining))))"

fun removeFromIndexEach :: "'ix env \<Rightarrow> 'ix store \<Rightarrow> element list \<Rightarrow> error option \<times> 'ix store" where
  "removeFromIndexEach env st [] = (None, st)"
| "removeFromIndexEach env st (d # ds) =
     (case imRemoveFromIndex env st d of
        (Some e, ix) \<Rightarrow> (Some e, st\<lparr>indexState := ix\<rparr>)
      | (None, ix) \<Rightarrow> removeFromIndexEach env (st\<lparr>indexState := ix\<rparr>) ds)"

definition deleteMany :: "'ix env \<Rightarrow> 'ix store \<Rightarrow> jsval \<Rightarrow> (error + element list) \<times> 'ix store" where
  "deleteMany env st query =
     (let documents = loadData env st in
      case partitionDocuments env query documents of
        Inl e \<Rightarrow> (Inl e, st)
      | Inr (toDelete, remaining) \<Rightarrow>
          (if length toDelete > 0 then
             (case saveData env st remaining of
                (Some e, st1) \<Rightarrow> (Inl e, st1)
              | (None, st1) \<Rightarrow>
                  (case removeFromIndexEach env st1 toDelete of
                     (Some e, st2) \<Rightarrow> (Inl e, st2)
                   | (None, st2) \<Rightarrow> (Inr toDelete, st2)))
           else (Inr toDelete, st)))"

section \<open>IndexManager: the file-backed index\<close>

text \<open>\<open>s.split(sep)\<close> for a one-character separator, and \<open>parts.join(sep)\<close>.\<close>

fun splitOn :: "char \<Rightarrow> string \<Rightarrow> string list" where
  "splitOn sep [] = [[]]"
| "splitOn sep (c # cs) =
     (if c = sep then [] # splitOn sep cs
      else (case splitOn sep cs of [] \<Rightarrow> [[c]] | p # ps \<Rightarrow> (c # p) # ps))"

fun joinWith :: "string \<Rightarrow> string list \<Rightarrow> string" where
  "joinWith sep [] = []"
| "joinWith sep [x] = x"
| "joinWith sep (x # y # ys) = x @ sep @ joinWith sep (y # ys)"

text \<open>\<open>acc[part]\<close> on a truthy value: a property of an object, an element or the
  length of an array or a string, the bytes of an ObjectId, \<open>undefined\<close> otherwise.\<close>

definition getProperty :: "jsval \<Rightarrow> string \<Rightarrow> jsval" where
  "getProperty v k =
     (case v of
        JObj kvs \<Rightarrow> getField kvs k
      | JArr xs \<Rightarrow>
          (case map_of (entries v) k of
             Some x \<Rightarrow> x
           | None \<Rightarrow> (if k = ''length'' then JNum (int (length xs)) else JUndefined))
      | JStr s \<Rightarrow>
          (case map_of (entries v) k of
             Some x \<Rightarrow> x
           | None \<Rightarrow> (if k = ''length'' then JNum (int (length s)) else JUndefined))
      | JOid h \<Rightarrow> getField (entries v) k
      | _ \<Rightarrow> JUndefined)"

text \<open>\<open>path.split('.').reduce((acc, part) => acc && acc[part], obj)\<close> for a document
  \<open>obj\<close>. \<open>split\<close> returns at least one part; the document is truthy, so the first step
  reads the part off the document.\<close>

definition getNestedValue :: "element \<Rightarrow> string \<Rightarrow> jsval" where
  "getNestedValue obj path =
     (let parts = splitOn (CHR ''.'') path in
      fold (\<lambda>part acc. if truthy acc then getProperty acc part else acc)
        (tl parts) (elemGet obj (hd parts)))"

definition getDocumentIndexKey :: "'ix env \<Rightarrow> element \<Rightarrow> string list \<Rightarrow> string" where
  "getDocumentIndexKey env doc fieldPaths =
     joinWith ''::''
       (map (\<lambda>field.
               (let v = getNestedValue doc field
                in if v \<noteq> JUndefined then toStr env v else ''null''))
          fieldPaths)"

text \<open>\<open>doc._id.toString()\<close>: a \<open>TypeError\<close> when \<open>_id\<close> is \<open>undefined\<close> or
  \<open>null\<close>.\<close>

definition idString :: "'ix env \<Rightarrow> element \<Rightarrow> error + string" where
  "idString env doc =
     (case elemGet doc ''_id'' of
        JUndefined \<Rightarrow> Inl TypeError
      | JNull \<Rightarrow> Inl TypeError
      | v \<Rightarrow> Inr (toStr env v))"

text \<open>The block \<open>// Remove old document\<close> of \<open>updateFileIndex\<close>, on
  \<open>indexData.data\<close>: the identifier is filtered out of the list under the old key, and a
  list that becomes empty is deleted. The identifier is computed inside the filter
  callback, so only for a list that has an element.\<close>

definition removeOld ::
  "'ix env \<Rightarrow> (string \<times> string list) list \<Rightarrow> string \<Rightarrow> element \<Rightarrow>
     error + (string \<times> string list) list" where
  "removeOld env dat oldKey oldDoc =
     (case map_of dat oldKey of
        None \<Rightarrow> Inr dat
      | Some ids \<Rightarrow>
          (if ids = [] then Inr (deleteField dat oldKey)
           else
             (case idString env oldDoc of
                Inl e \<Rightarrow> Inl e
              | Inr oldId \<Rightarrow>
                  (let ids' = filter (\<lambda>i. i \<noteq> oldId) ids
                   in if length ids' = 0 then Inr (deleteField dat oldKey)
                      else Inr (setField dat oldKey ids')))))"

text \<open>The block \<open>// Add new document\<close>: an absent key gets the empty list, and the
  identifier is pushed unless the list includes it.\<close>

definition addNew ::
  "'ix env \<Rightarrow> (string \<times> string list) list \<Rightarrow> string \<Rightarrow> element \<Rightarrow>
     error + (string \<times> string list) list" where
  "addNew env dat newKey newDoc =
     (let dat1 = (case map_of dat newKey of None \<Rightarrow> setField dat newKey [] | Some ids \<Rightarrow> dat)
      in case idString env newDoc of
           Inl e \<Rightarrow> Inl e
         | Inr newId \<Rightarrow>
             (let ids = (case map_of dat1 newKey of None \<Rightarrow> [] | Some ids \<Rightarrow> ids)
              in if newId \<notin> set ids then Inr (setField dat1 newKey (ids @ [newId]))
                 else Inr dat1))"

text \<open>The inner \<open>try\<close> block of \<open>updateFileIndex\<close> up to the write, on the
  deserialized \<open>indexData\<close>. A file that parses to something without \<open>metadata\<close>
  throws at \<open>indexData.metadata.fields\<close>.\<close>

definition updateIndexData ::
  "'ix env \<Rightarrow> bson_root \<Rightarrow> element \<Rightarrow> element option \<Rightarrow> error + bson_root" where
  "updateIndexData env indexData newDoc oldDoc =
     (case indexData of
        IndexFile meta dat \<Rightarrow>
          (case (case oldDoc of
                   None \<Rightarrow> Inr dat
                 | Some old \<Rightarrow>
                     removeOld env dat (getDocumentIndexKey env old (meta_fields meta)) old) of
             Inl e \<Rightarrow> Inl e
           | Inr dat1 \<Rightarrow>
               (case addNew env dat1 (getDocumentIndexKey env newDoc (meta_fields meta)) newDoc of
                  Inl e \<Rightarrow> Inl e
                | Inr dat2 \<Rightarrow> Inr (IndexFile meta dat2)))
      | _ \<Rightarrow> Inl TypeError)"

text \<open>What the index manager works on, for one collection: the index files by index
  name (\<open>_index_<name>.bson\<close>, in directory order), whether writing them succeeds, the
  counter of random values drawn, the collection's data file (read when an index is
  built), and whether \<open>database.collection(name)\<close> finds the collection. The manager is
  modelled without the cache: \<open>isConnected\<close> is false, as after a failed connection.\<close>

record index_dir =
  ixFiles :: "(string \<times> bytes) list"
  ixWritable :: bool
  ixEntropy :: nat
  ixDataFile :: "bytes option"
  ixRegistered :: bool

text \<open>\<open>updateFileIndex(collectionName, indexName, newDoc, oldDoc)\<close>. A file that
  cannot be read ends the call (the outer \<open>catch\<close>). Any exception of the inner block
  (the file does not deserialize, an identifier is missing, the write fails) calls
  \<open>repairIndexFile\<close>; \<open>repair\<close> stands for it, \<open>None\<close> when it does not return.\<close>

definition updateFileIndex ::
  "'ix env \<Rightarrow> (index_dir \<Rightarrow> string \<Rightarrow> index_dir option) \<Rightarrow> index_dir \<Rightarrow> string \<Rightarrow> element \<Rightarrow>
     element option \<Rightarrow> index_dir option" where
  "updateFileIndex env repair dir indexName newDoc oldDoc =
     (case map_of (ixFiles dir) indexName of
        None \<Rightarrow> Some dir
      | Some encryptedData \<Rightarrow>
          (let decryptedData = decrypt env (dbEncryption env) encryptedData in
           case bsonDeserialize env decryptedData of
             None \<Rightarrow> repair dir indexName
           | Some indexData \<Rightarrow>
               (case updateIndexData env indexData newDoc oldDoc of
                  Inl e \<Rightarrow> repair dir indexName
                | Inr indexData' \<Rightarrow>
                    (case bsonSerialize env indexData' of
                       None \<Rightarrow> repair dir indexName
                     | Some b \<Rightarrow>
                         (case encrypt env (dbEncryption env) (ixEntropy dir) b of
                            (updatedEncrypted, n) \<Rightarrow>
                              (if ixWritable dir
                               then Some (dir\<lparr>ixFiles := setField (ixFiles dir) indexName
                                                          updatedEncrypted,
                                              ixEntropy := n\<rparr>)
                               else repair (dir\<lparr>ixEntropy := n\<rparr>) indexName))))))"

text \<open>The file fallback of \<open>getCollectionIndexes\<close>: for each index file of the
  directory listing, read, decrypt and deserialize it; keep its metadata when it belongs
  to the collection; repair it when it does not deserialize; skip it when it cannot be
  read.\<close>

fun scanIndexFiles ::
  "'ix env \<Rightarrow> (index_dir \<Rightarrow> string \<Rightarrow> index_dir option) \<Rightarrow> string \<Rightarrow> index_dir \<Rightarrow> string list \<Rightarrow>
     index_meta list \<Rightarrow> (index_meta list \<times> index_dir) option" where
  "scanIndexFiles env repair collectionName dir [] indexes = Some (indexes, dir)"
| "scanIndexFiles env repair collectionName dir (file # files) indexes =
     (case map_of (ixFiles dir) file of
        None \<Rightarrow> scanIndexFiles env repair collectionName dir files indexes
      | Some encryptedData \<Rightarrow>
          (case bsonDeserialize env (decrypt env (dbEncryption env) encryptedData) of
             None \<Rightarrow>
               (case repair dir file of
                  None \<Rightarrow> None
                | Some dir' \<Rightarrow> scanIndexFiles env repair collectionName dir' files indexes)
           | Some parsed \<Rightarrow>
               (case parsed of
                  IndexFile meta dat \<Rightarrow>
                    (if meta_collection meta = collectionName
                     then scanIndexFiles env repair collectionName dir files (indexes @ [meta])
                     else scanIndexFiles env repair collectionName dir files indexes)
                | _ \<Rightarrow> scanIndexFiles env repair collectionName dir files indexes)))"

definition getCollectionIndexes ::
  "'ix env \<Rightarrow> (index_dir \<Rightarrow> string \<Rightarrow> index_dir option) \<Rightarrow> index_dir \<Rightarrow> string \<Rightarrow>
     (index_meta list \<times> index_dir) option" where
  "getCollectionIndexes env repair dir collectionName =
     scanIndexFiles env repair collectionName dir (map fst (ixFiles dir)) []"

text \<open>The loop of \<open>updateIndex\<close> over the indexes of the collection, and
  \<open>updateIndex\<close>.\<close>

fun updateFileIndexes ::
  "'ix env \<Rightarrow> (index_dir \<Rightarrow> string \<Rightarrow> index_dir option) \<Rightarrow> index_dir \<Rightarrow> index_meta list \<Rightarrow>
     element \<Rightarrow> element option \<Rightarrow> index_dir option" where
  "updateFileIndexes env repair dir [] newDoc oldDoc = Some dir"
| "updateFileIndexes env repair dir (index # indexes) newDoc oldDoc =
     (case updateFileIndex env repair dir (meta_name index) newDoc oldDoc of
        None \<Rightarrow> None
      | Some dir' \<Rightarrow> updateFileIndexes env repair dir' indexes newDoc oldDoc)"

definition updateIndex ::
  "'ix env \<Rightarrow> (index_dir \<Rightarrow> string \<Rightarrow> index_dir option) \<Rightarrow> index_dir \<Rightarrow> string \<Rightarrow> element \<Rightarrow>
     element option \<Rightarrow> index_dir option" where
  "updateIndex env repair dir collectionName newDoc oldDoc =
     (case getCollectionIndexes env repair dir collectionName of
        None \<Rightarrow> None
      | Some (indexes, dir') \<Rightarrow> updateFileIndexes env repair dir' indexes newDoc oldDoc)"

text \<open>The loop \<open>// Build initial index\<close> of \<open>createIndex\<close>, and \<open>createIndex\<close> for a
  list of fields: the file \<open>{metadata, data: {}}\<close> is written (a failure is thrown), then
  every document of the collection is indexed.\<close>

fun buildIndex ::
  "'ix env \<Rightarrow> (index_dir \<Rightarrow> string \<Rightarrow> index_dir option) \<Rightarrow> index_dir \<Rightarrow> string \<Rightarrow>
     element list \<Rightarrow> index_dir option" where
  "buildIndex env repair dir collectionName [] = Some dir"
| "buildIndex env repair dir collectionName (doc # documents) =
     (case updateIndex env repair dir collectionName doc None of
        None \<Rightarrow> None
      | Some dir' \<Rightarrow> buildIndex env repair dir' collectionName documents)"

definition createIndex ::
  "'ix env \<Rightarrow> (index_dir \<Rightarrow> string \<Rightarrow> index_dir option) \<Rightarrow> index_dir \<Rightarrow> string \<Rightarrow> string list \<Rightarrow>
     (error option \<times> index_dir) option" where
  "createIndex env repair dir collectionName fieldArray =
     (let indexName = joinWith ''_'' fieldArray;
          indexMeta = \<lparr> meta_name = indexName, meta_collection = collectionName,
                        meta_fields = fieldArray \<rparr>
      in case bsonSerialize env (IndexFile indexMeta []) of
           None \<Rightarrow> Some (Some BSONError, dir)
         | Some b \<Rightarrow>
             (case encrypt env (dbEncryption env) (ixEntropy dir) b of
                (encryptedIndex, n) \<Rightarrow>
                  (if \<not> ixWritable dir then Some (Some WriteFailed, dir\<lparr>ixEntropy := n\<rparr>)
                   else
                     (let dir1 = dir\<lparr>ixFiles := setField (ixFiles dir) indexName encryptedIndex,
                                      ixEntropy := n\<rparr>
                      in if ixRegistered dir1
                         then (case buildIndex env repair dir1 collectionName
                                      (readSnapshot env (ixDataFile dir1)) of
                                 None \<Rightarrow> None
                               | Some dir2 \<Rightarrow> Some (None, dir2))
                         else Some (None, dir1)))))"

text \<open>\<open>repairIndexFile(collectionName, fileName)\<close>: the file is deleted (when it is
  not there, \<open>unlink\<close> throws and the call ends), the field list is taken from the index
  name by splitting at \<open>_\<close>, and \<open>createIndex\<close> runs; whatever it throws is caught.
  Building the index can meet further files that need repair; the first argument bounds
  how deep repairs may nest, and \<open>None\<close> is a call that does not return within it.\<close>

primrec repairIndexFile ::
  "nat \<Rightarrow> 'ix env \<Rightarrow> string \<Rightarrow> index_dir \<Rightarrow> string \<Rightarrow> index_dir option" where
  "repairIndexFile 0 env collectionName dir indexName = None"
| "repairIndexFile (Suc depth) env collectionName dir indexName =
     (case map_of (ixFiles dir) indexName of
        None \<Rightarrow> Some dir
      | Some b \<Rightarrow>
          (case createIndex env (repairIndexFile depth env collectionName)
                  (dir\<lparr>ixFiles := deleteField (ixFiles dir) indexName\<rparr>) collectionName
                  (splitOn (CHR ''_'') indexName) of
             None \<Rightarrow> None
           | Some (e, dir') \<Rightarrow> Some dir'))"

text \<open>A sequence of \<open>updateFileIndex\<close> calls, each given by index name, new document
  and old document.\<close>

fun updateFileIndexCalls ::
  "nat \<Rightarrow> 'ix env \<Rightarrow> string \<Rightarrow> index_dir \<Rightarrow> (string \<times> element \<times> element option) list \<Rightarrow>
     index_dir option" where
  "updateFileIndexCalls depth env collectionName dir [] = Some dir"
| "updateFileIndexCalls depth env collectionName dir ((indexName, newDoc, oldDoc) # calls) =
     (case updateFileIndex env (repairIndexFile depth env collectionName) dir indexName newDoc
             oldDoc of
        None \<Rightarrow> None
      | Some dir' \<Rightarrow> updateFileIndexCalls depth env collectionName dir' calls)"

section \<open>Predicates of the properties\<close>

text \<open>An update specification writes the identifier when the payload of one of its
  operators \<open>$set\<close>, \<open>$unset\<close>, \<open>$inc\<close>, \<open>$push\<close> has the key \<open>_id\<close>.\<close>

definition touchesId :: "document \<Rightarrow> bool" where
  "touchesId update =
     list_ex (\<lambda>kv. fst kv \<in> {''$set'', ''$unset'', ''$inc'', ''$push''}
                  \<and> ''_id'' \<in> set (map fst (entries (snd kv)))) update"

text \<open>What a written file reads back as: every value the BSON library serializes is what
  the bytes, encrypted and decrypted again, deserialize to.\<close>

definition codecRoundTrip :: "'ix env \<Rightarrow> bool" where
  "codecRoundTrip env =
     (\<forall>r b n. bsonSerialize env r = Some b \<longrightarrow>
        bsonDeserialize env
          (decrypt env (dbEncryption env) (fst (encrypt env (dbEncryption env) n b))) = Some r)"

text \<open>The lists of an index file are duplicate-free: in the \<open>data\<close> map the file
  deserializes to, no identifier occurs twice under a composite key. A file that does
  not deserialize to an index has no lists.\<close>

definition listsDistinct :: "bson_root \<Rightarrow> bool" where
  "listsDistinct parsed =
     (case parsed of IndexFile meta dat \<Rightarrow> list_all (\<lambda>kv. distinct (snd kv)) dat | _ \<Rightarrow> True)"

definition fileListsDistinct :: "'ix env \<Rightarrow> bytes \<Rightarrow> bool" where
  "fileListsDistinct env b =
     (case bsonDeserialize env (decrypt env (dbEncryption env) b) of
        None \<Rightarrow> True
      | Some parsed \<Rightarrow> listsDistinct parsed)"

definition indexListsDistinct :: "'ix env \<Rightarrow> index_dir \<Rightarrow> bool" where
  "indexListsDistinct env dir = list_all (\<lambda>f. fileListsDistinct env (snd f)) (ixFiles dir)"

text \<open>A repair function keeps the lists duplicate-free when every directory it returns
  from a duplicate-free one is duplicate-free.\<close>

definition repairKeeps :: "'ix env \<Rightarrow> (index_dir \<Rightarrow> string \<Rightarrow> index_dir option) \<Rightarrow> bool" where
  "repairKeeps env repair =
     (\<forall>dir name dir'. indexListsDistinct env dir \<longrightarrow> repair dir name = Some dir'
        \<longrightarrow> indexListsDistinct env dir')"

text \<open>The operators \<open>matchOperator\<close> has a case for.\<close>

definition supportedOperators :: "string set" where
  "supportedOperators =
     {''$eq'', ''$ne'', ''$gt'', ''$gte'', ''$lt'', ''$lte'', ''$in'', ''$nin'', ''$regex''}"

text \<open>A query object has an unknown operator in a conjunct: one of its field conditions
  (the value, an object, of a key other than \<open>$or\<close> and \<open>$and\<close>) has an operator that
  is not supported, or a sub-query listed under a key \<open>$and\<close> has an unknown operator
  in a conjunct. What is listed under \<open>$or\<close> does not count.\<close>

fun unknownConjunct :: "jsval \<Rightarrow> bool"
  and unknownConjunctEntries :: "(string \<times> jsval) list \<Rightarrow> bool"
  and unknownConjunctAny :: "jsval list \<Rightarrow> bool"
where
  "unknownConjunct (JObj kvs) = unknownConjunctEntries kvs"
| "unknownConjunct JUndefined = False"
| "unknownConjunct JNull = False"
| "unknownConjunct (JBool b) = False"
| "unknownConjunct (JNum n) = False"
| "unknownConjunct (JStr s) = False"
| "unknownConjunct (JOid h) = False"
| "unknownConjunct (JArr xs) = False"
| "unknownConjunctEntries [] = False"
| "unknownConjunctEntries ((k, v) # rest) =
     ((if k = ''$or'' then False
       else if k = ''$and'' then (case v of JArr conds \<Rightarrow> unknownConjunctAny conds | _ \<Rightarrow> False)
       else isObject v \<and> list_ex (\<lambda>kv. fst kv \<notin> supportedOperators) (entries v))
      \<or> unknownConjunctEntries rest)"
| "unknownConjunctAny [] = False"
| "unknownConjunctAny (c # cs) = (unknownConjunct c \<or> unknownConjunctAny cs)"

text \<open>The identifiers of the stored documents, in order, and their uniqueness.\<close>

definition storedIds :: "'ix env \<Rightarrow> 'ix store \<Rightarrow> jsval list" where
  "storedIds env st = map (\<lambda>d. elemGet d ''_id'') (loadData env st)"

definition uniqueIds :: "'ix env \<Rightarrow> 'ix store \<Rightarrow> bool" where
  "uniqueIds env st = distinct (storedIds env st)"

abbreviation idsOf :: "element list \<Rightarrow> jsval list" where
  "idsOf docs \<equiv> map (\<lambda>d. elemGet d ''_id'') docs"

text \<open>The codec keeps the documents of a class \<open>kept\<close>: a snapshot of such documents
  that the BSON library serializes is what the bytes, encrypted and decrypted again,
  deserialize to.\<close>

definition keptRoundTrip :: "'ix env \<Rightarrow> (element \<Rightarrow> bool) \<Rightarrow> bool" where
  "keptRoundTrip env kept =
     (\<forall>docs b n. list_all kept docs \<longrightarrow> bsonSerialize env (Snapshot docs) = Some b \<longrightarrow>
        bsonDeserialize env
          (decrypt env (dbEncryption env) (fst (encrypt env (dbEncryption env) n b)))
        = Some (Snapshot docs))"

text \<open>The operations of a collection that write, and the store each leaves.\<close>

datatype operation =
    InsertOne jsval
  | InsertMany "element list" "nat list"
  | UpdateOne jsval document document
  | UpdateMany jsval document
  | DeleteOne jsval
  | DeleteMany jsval

definition perform :: "'ix env \<Rightarrow> 'ix store \<Rightarrow> operation \<Rightarrow> 'ix store" where
  "perform env st oper =
     (case oper of
        InsertOne d \<Rightarrow> snd (insertOne env st d)
      | InsertMany objects refs \<Rightarrow> snd (insertMany env st objects refs)
      | UpdateOne q u opts \<Rightarrow> snd (updateOne env st q u opts)
      | UpdateMany q u \<Rightarrow> snd (updateMany env st q u)
      | DeleteOne q \<Rightarrow> snd (deleteOne env st q)
      | DeleteMany q \<Rightarrow> snd (deleteMany env st q))"

fun performAll :: "'ix env \<Rightarrow> 'ix store \<Rightarrow> operation list \<Rightarrow> 'ix store" where
  "performAll env st [] = st"
| "performAll env st (oper # opers) = performAll env (perform env st oper) opers"

text \<open>The documents to insert, given as for \<open>insertMany\<close>, are kept by the codec and
  carry fresh identifiers: after identifiers are assigned, the entries of the array have
  pairwise distinct identifiers, none of them the identifier of a stored document. An
  array that lists one object twice has one identifier twice.\<close>

definition freshIds ::
  "'ix env \<Rightarrow> (element \<Rightarrow> bool) \<Rightarrow> 'ix store \<Rightarrow> element list \<Rightarrow> nat list \<Rightarrow> bool" where
  "freshIds env kept st objects refs =
     (case fst (assignIds env (entropy st) objects refs) of
        Inl e \<Rightarrow> True
      | Inr objects' \<Rightarrow>
          (let docs = map (\<lambda>r. objects' ! r) refs in
           list_all kept docs
           \<and> distinct (map (\<lambda>d. elemGet d ''_id'') docs)
           \<and> list_all (\<lambda>d. elemGet d ''_id'' \<notin> set (storedIds env st)) docs))"

text \<open>The document an update makes of a stored one is kept by the codec.\<close>

definition keptUpdate :: "'ix env \<Rightarrow> (element \<Rightarrow> bool) \<Rightarrow> document \<Rightarrow> element \<Rightarrow> bool" where
  "keptUpdate env kept update d =
     (case applyUpdate env (ownProps d) update of
        Inl e \<Rightarrow> True
      | Inr updatedDoc \<Rightarrow> kept (Plain updatedDoc))"

text \<open>An operation that respects the identifiers: an insert (also the insert of an
  upsert) brings documents the codec keeps, with fresh identifiers; an update that is
  applied does not write \<open>_id\<close> and makes documents the codec keeps.\<close>

definition admissible ::
  "'ix env \<Rightarrow> (element \<Rightarrow> bool) \<Rightarrow> 'ix store \<Rightarrow> operation \<Rightarrow> bool" where
  "admissible env kept st oper =
     (case oper of
        InsertOne d \<Rightarrow>
          (case toElement d of Some e \<Rightarrow> freshIds env kept st [e] [0] | None \<Rightarrow> True)
      | InsertMany objects refs \<Rightarrow> freshIds env kept st objects refs
      | UpdateOne q u opts \<Rightarrow>
          (case findIndex env q (loadData env st) of
             Inl e \<Rightarrow> True
           | Inr None \<Rightarrow>
               (if truthy (getField opts ''upsert'')
                then (case toElement (upsertPayload u) of
                        Some e \<Rightarrow> freshIds env kept st [e] [0]
                      | None \<Rightarrow> True)
                else True)
           | Inr (Some index) \<Rightarrow>
               \<not> touchesId u \<and> keptUpdate env kept u (loadData env st ! index))
      | UpdateMany q u \<Rightarrow>
          \<not> touchesId u
          \<and> list_all (\<lambda>d. matchDocument env d q = Inr True \<longrightarrow> keptUpdate env kept u d)
              (loadData env st)
      | DeleteOne q \<Rightarrow> True
      | DeleteMany q \<Rightarrow> True)"

fun admissibleAll ::
  "'ix env \<Rightarrow> (element \<Rightarrow> bool) \<Rightarrow> 'ix store \<Rightarrow> operation list \<Rightarrow> bool" where
  "admissibleAll env kept st [] = True"
| "admissibleAll env kept st (oper # opers) =
     (admissible env kept st oper \<and> admissibleAll env kept (perform env st oper) opers)"

section \<open>The order of sort, skip and limit as specified\<close>

text \<open>The specification of \<open>find\<close>: retain the matching documents, apply \<open>sort\<close>,
  then \<open>skip\<close>, then \<open>limit\<close>. This definition follows those words; \<open>find_docs\<close>
  above follows the source.\<close>

definition find_as_specified ::
  "'ix env \<Rightarrow> 'ix store \<Rightarrow> jsval \<Rightarrow> document \<Rightarrow> error + element list" where
  "find_as_specified env st query options =
     (let documents = loadData env st in
      case filterDocuments env (orEmptyObject query) documents of
        Inl e \<Rightarrow> Inl e
      | Inr results \<Rightarrow>
          (let sorted = (if truthy (getField options ''sort'')
                         then sortDocuments env results (getField options ''sort'')
                         else results);
               skipped = (if truthy (getField options ''skip'')
                          then slice sorted (toInteger env (getField options ''skip'')) None
                          else sorted);
               limited = (if truthy (getField options ''limit'')
                          then slice skipped 0 (Some (toInteger env (getField options ''limit'')))
                          else skipped)
           in Inr limited))"

section \<open>A concrete environment and sample data\<close>

text \<open>An environment to evaluate the definitions in: numbers compare as integers, the
  BSON codec is a finite table of byte strings and the values they stand for, the cipher
  is the identity, and the index manager keeps no state.\<close>

definition fixtureEnv :: "(bytes \<times> bson_root) list \<Rightarrow> encryption \<Rightarrow> unit env" where
  "fixtureEnv table enc =
     \<lparr> isLessThan =
         (\<lambda>a b. case a of
                  JNum x \<Rightarrow> (case b of JNum y \<Rightarrow> Some (x < y) | _ \<Rightarrow> None)
                | _ \<Rightarrow> None),
       regExpTest = (\<lambda>p s. Inr False),
       toStr = (\<lambda>v. case v of JStr s \<Rightarrow> s | JOid h \<Rightarrow> h | _ \<Rightarrow> []),
       stringToInteger = (\<lambda>s. 0),
       jsPlus =
         (\<lambda>a b. case a of
                  JNum x \<Rightarrow> (case b of JNum y \<Rightarrow> JNum (x + y) | _ \<Rightarrow> JUndefined)
                | _ \<Rightarrow> JUndefined),
       bsonSerialize = (\<lambda>r. map_of (map (\<lambda>p. (snd p, fst p)) table) r),
       bsonDeserialize = map_of table,
       randomBytes = (\<lambda>n len. replicate len 0),
       cipher = (\<lambda>k iv d. Some d),
       decipher = (\<lambda>k iv d. Some d),
       newObjectId = (\<lambda>n. replicate (Suc n) (CHR ''f'')),
       objectIdFromString = Some,
       dbEncryption = enc,
       imUpdateIndex = (\<lambda>st d old. (None, ())),
       imRemoveFromIndex = (\<lambda>st d. (None, ())) \<rparr>"

definition noEncryption :: encryption where
  "noEncryption = \<lparr> enc_enabled = False, enc_key = [], enc_ivLength = 16 \<rparr>"

definition testKeyEncryption :: encryption where
  "testKeyEncryption = newEncryption (\<lambda>s. []) (\<lambda>v. []) (JStr ''test-key-123'')"

definition docJohn :: document where
  "docJohn = [(''_id'', JOid ''a1''), (''name'', JStr ''John''), (''age'', JNum 30)]"

definition docJane :: document where
  "docJane = [(''_id'', JOid ''a2''), (''name'', JStr ''Jane''), (''age'', JNum 25)]"

definition docMary :: document where
  "docMary = [(''_id'', JOid ''a3''), (''name'', JStr ''Mary''), (''age'', JNum 41)]"

definition storeOf :: "bytes \<Rightarrow> unit store" where
  "storeOf b = \<lparr> dataFile = Some b, dataWritable = True, indexState = (), entropy = 0 \<rparr>"

definition threeDocs :: "(bytes \<times> bson_root) list" where
  "threeDocs = [([1], Snapshot [Plain docJohn, Plain docJane, Plain docMary])]"

definition docZed :: document where
  "docZed = [(''name'', JStr ''Zed''), (''_id'', JOid ''f'')]"

definition docNullSet :: document where
  "docNullSet = [(''$set'', JNull), (''name'', JStr ''Zed''), (''_id'', JOid ''f'')]"

definition upsertTable :: "(bytes \<times> bson_root) list" where
  "upsertTable = [([1], Snapshot [Plain docJohn, Plain docJane, Plain docMary]),
                  ([2], Snapshot [Plain docJohn, Plain docJane, Plain docMary, Plain docZed]),
                  ([3], Snapshot [Plain docJohn, Plain docJane, Plain docMary, Plain docNullSet])]"

definition docDup :: document where
  "docDup = [(''_id'', JOid ''a1''), (''name'', JStr ''Dup'')]"

definition opsTable :: "(bytes \<times> bson_root) list" where
  "opsTable = [([1], Snapshot [Plain docJohn, Plain docJane, Plain docMary]),
               ([2], Snapshot [Plain docJohn, Plain docJane, Plain docMary, Plain docZed]),
               ([3], Snapshot [Plain docJohn, Plain docJane, Plain docMary, Plain docDup]),
               ([4], Snapshot [Plain docJane, Plain docMary, Plain docZed]),
               ([5], Snapshot [Plain docJohn, Plain docJane, Plain docMary, Plain docZed,
                               Plain docZed])]"

definition nameIndexMeta :: index_meta where
  "nameIndexMeta = \<lparr> meta_name = ''name'', meta_collection = ''users'', meta_fields = [''name''] \<rparr>"

definition indexTable :: "(bytes \<times> bson_root) list" where
  "indexTable = [([10], IndexFile nameIndexMeta []),
                 ([11], IndexFile nameIndexMeta [(''John'', [''a1''])]),
                 ([12], IndexFile nameIndexMeta [(''John'', [''a1'']), (''Jane'', [''a2''])])]"

definition indexDirOf :: "bytes \<Rightarrow> index_dir" where
  "indexDirOf b = \<lparr> ixFiles = [(''name'', b)], ixWritable = True, ixEntropy = 0,
                     ixDataFile = None, ixRegistered = True \<rparr>"


section \<open>Properties\<close>

lemmas fixture_simps = fixtureEnv_def noEncryption_def storeOf_def threeDocs_def loadData_def
  readSnapshot_def decrypt_def getField_def orEmptyObject_def

lemmas sample_docs = docJohn_def docJane_def docMary_def

subsection \<open>find and count\<close>

text \<open>
  C6. \<open>count(q)\<close> is the length of \<open>find(q)\<close> called without options, for every
  environment, store and query; when the matcher throws, both calls throw the same error.
\<close>

theorem count_eq_find_length:
  "count env st q = (case find_docs env st q [] of Inl e \<Rightarrow> Inl e | Inr rs \<Rightarrow> Inr (length rs))"
  by (simp add: count_def find_docs_def getField_def split: sum.splits)

theorem count_eq_find_length_witness:
  "count (fixtureEnv threeDocs noEncryption) (storeOf [1])
       (JObj [(''age'', JObj [(''$gte'', JNum 26)])]) = Inr 2
   \<and> find_docs (fixtureEnv threeDocs noEncryption) (storeOf [1])
       (JObj [(''age'', JObj [(''$gte'', JNum 26)])]) [] = Inr [Plain docJohn, Plain docMary]"
proof -
  have f: "find_docs (fixtureEnv threeDocs noEncryption) (storeOf [1])
             (JObj [(''age'', JObj [(''$gte'', JNum 26)])]) [] = Inr [Plain docJohn, Plain docMary]"
    by (simp add: find_docs_def fixture_simps matchField_def matchOperator_def sample_docs)
  show ?thesis
    using count_eq_find_length [of "fixtureEnv threeDocs noEncryption" "storeOf [1]"
        "JObj [(''age'', JObj [(''$gte'', JNum 26)])]"] f
    by simp
qed

text \<open>
  C1. The claim is that \<open>find\<close> applies \<open>sort\<close>, then \<open>skip\<close>, then \<open>limit\<close>. The
  source slices by \<open>limit\<close> first and by \<open>skip\<close> second. On the three stored documents
  John, Jane, Mary with the empty query and \<open>{skip: 1, limit: 1}\<close> the source returns
  no document, where the specified order returns Jane.
\<close>

theorem find_limit_before_skip:
  "find_docs (fixtureEnv threeDocs noEncryption) (storeOf [1]) (JObj [])
      [(''skip'', JNum 1), (''limit'', JNum 1)] = Inr []
   \<and> find_as_specified (fixtureEnv threeDocs noEncryption) (storeOf [1]) (JObj [])
      [(''skip'', JNum 1), (''limit'', JNum 1)] = Inr [Plain docJane]"
  by (simp add: find_docs_def find_as_specified_def fixture_simps slice_def toInteger_def)

subsection \<open>Loading a snapshot that does not deserialize\<close>

lemma slice_Nil: "slice [] a b = []"
  by (simp add: slice_def)

lemma sortDocuments_Nil: "sortDocuments env [] s = []"
  by (simp add: sortDocuments_def arraySort_def)

lemma find_docs_empty: "loadData env st = [] \<Longrightarrow> find_docs env st q opts = Inr []"
  by (simp add: find_docs_def slice_Nil sortDocuments_Nil)

text \<open>
  C3, as stated, fails: when the bytes of the data file decrypt but do not deserialize,
  \<open>loadData\<close> returns the empty array and \<open>find\<close> returns no document; no error reaches
  the caller.
\<close>

theorem loadData_corrupt_counterexample:
  "dataFile (storeOf [9, 9]) = Some [9, 9]
   \<and> bsonDeserialize (fixtureEnv threeDocs noEncryption)
       (decrypt (fixtureEnv threeDocs noEncryption)
          (dbEncryption (fixtureEnv threeDocs noEncryption)) [9, 9]) = None
   \<and> loadData (fixtureEnv threeDocs noEncryption) (storeOf [9, 9]) = []
   \<and> find_docs (fixtureEnv threeDocs noEncryption) (storeOf [9, 9]) (JObj []) [] = Inr []"
  by (simp add: find_docs_def fixture_simps)

text \<open>
  C3, amended. When the bytes of the data file, after \<open>decrypt\<close>, do not deserialize,
  \<open>loadData\<close> returns the empty array, and so \<open>find\<close> returns no document and \<open>count\<close>
  returns 0, for every query and every options.
\<close>

theorem loadData_undecodable_is_empty:
  assumes "dataFile st = Some b"
    and "bsonDeserialize env (decrypt env (dbEncryption env) b) = None"
  shows "loadData env st = [] \<and> find_docs env st q opts = Inr [] \<and> count env st q = Inr 0"
proof -
  have l: "loadData env st = []" using assms by (simp add: loadData_def readSnapshot_def)
  then show ?thesis by (simp add: find_docs_empty count_def)
qed

theorem loadData_undecodable_is_empty_witness:
  "loadData (fixtureEnv threeDocs noEncryption) (storeOf [7]) = []
   \<and> find_docs (fixtureEnv threeDocs noEncryption) (storeOf [7])
       (JObj [(''name'', JStr ''John'')]) [] = Inr []
   \<and> count (fixtureEnv threeDocs noEncryption) (storeOf [7])
       (JObj [(''name'', JStr ''John'')]) = Inr 0"
proof -
  have a: "dataFile (storeOf [7]) = Some [7]" by (simp add: storeOf_def)
  have b: "bsonDeserialize (fixtureEnv threeDocs noEncryption)
       (decrypt (fixtureEnv threeDocs noEncryption)
          (dbEncryption (fixtureEnv threeDocs noEncryption)) [7]) = None"
    by (simp add: fixture_simps)
  show ?thesis using loadData_undecodable_is_empty [OF a b] by blast
qed

subsection \<open>Decrypting less than one IV\<close>

text \<open>
  C4, as stated, fails: with encryption enabled, \<open>decrypt\<close> of three bytes returns the
  three bytes.
\<close>

theorem decrypt_short_input_counterexample:
  "enc_enabled testKeyEncryption \<and> length [1, 2, 3 :: byte] < 16
   \<and> decrypt (fixtureEnv [] testKeyEncryption) testKeyEncryption [1, 2, 3] = [1, 2, 3]"
  by (simp add: testKeyEncryption_def newEncryption_def decrypt_def)

text \<open>
  C4, amended. For an \<open>Encryption\<close> made by the constructor and enabled, \<open>decrypt\<close> of
  fewer than 16 bytes returns its input unchanged; it raises no error.
\<close>

theorem decrypt_short_input_unchanged:
  assumes "enc = newEncryption digest str k" and "enc_enabled enc" and "length dat < 16"
  shows "decrypt env enc dat = dat"
  using assms by (auto simp: decrypt_def newEncryption_def split: if_splits)

theorem decrypt_short_input_unchanged_witness:
  "decrypt (fixtureEnv [] testKeyEncryption) testKeyEncryption [5, 6] = [5, 6]"
proof -
  have a: "testKeyEncryption = newEncryption (\<lambda>s. []) (\<lambda>v. []) (JStr ''test-key-123'')"
    by (simp add: testKeyEncryption_def)
  have b: "enc_enabled testKeyEncryption"
    by (simp add: testKeyEncryption_def newEncryption_def)
  have c: "length [5, 6 :: byte] < 16" by simp
  show ?thesis using decrypt_short_input_unchanged [OF a b c] .
qed

subsection \<open>updateOne without a match\<close>

text \<open>
  C9. When no stored document matches the query and \<open>upsert\<close> is not set, \<open>updateOne\<close>
  returns \<open>null\<close> and the store is the one it was given: the data file, the state of
  the index manager and the random counter are unchanged.
\<close>

theorem updateOne_no_match_no_upsert:
  assumes "findIndex env query (loadData env st) = Inr None"
    and "\<not> truthy (getField options ''upsert'')"
  shows "updateOne env st query update options = (Inr None, st)"
  using assms by (simp add: updateOne_def)

theorem updateOne_no_match_no_upsert_witness:
  "updateOne (fixtureEnv threeDocs noEncryption) (storeOf [1]) (JObj [(''name'', JStr ''Zed'')])
      [(''$set'', JObj [(''age'', JNum 1)])] [] = (Inr None, storeOf [1])"
proof -
  have a: "findIndex (fixtureEnv threeDocs noEncryption) (JObj [(''name'', JStr ''Zed'')])
             (loadData (fixtureEnv threeDocs noEncryption) (storeOf [1])) = Inr None"
    by (simp add: fixture_simps matchField_def sample_docs)
  have b: "\<not> truthy (getField [] ''upsert'')" by (simp add: getField_def)
  show ?thesis using updateOne_no_match_no_upsert [OF a b] .
qed

subsection \<open>Unknown operators\<close>

lemma matchOperator_unknown:
  "operator \<notin> supportedOperators \<Longrightarrow> matchOperator env fieldValue operator v = Inr False"
  by (simp add: matchOperator_def supportedOperators_def)

lemma matchOperators_unknown:
  "list_ex (\<lambda>kv. fst kv \<notin> supportedOperators) ops \<Longrightarrow> matchOperators env fv ops \<noteq> Inr True"
proof (induction ops)
  case Nil
  then show ?case by simp
next
  case (Cons kv ops)
  obtain operator v where kv: "kv = (operator, v)" by (cases kv)
  show ?case
  proof (cases "operator \<in> supportedOperators")
    case False
    then show ?thesis unfolding kv by (simp add: matchOperator_unknown)
  next
    case True
    with Cons.prems kv have "list_ex (\<lambda>kv. fst kv \<notin> supportedOperators) ops" by simp
    from Cons.IH [OF this] show ?thesis unfolding kv by (simp split: sum.splits)
  qed
qed

lemma matchField_unknown:
  "isObject v \<Longrightarrow> list_ex (\<lambda>kv. fst kv \<notin> supportedOperators) (entries v)
   \<Longrightarrow> matchField env doc k v \<noteq> Inr True"
  by (simp add: matchField_def matchOperators_unknown)

lemma unknownConjunct_not_true:
  "unknownConjunct q \<longrightarrow> (\<forall>doc. matchDocument env doc q \<noteq> Inr True)"
  "unknownConjunctEntries kvs \<longrightarrow> (\<forall>doc. matchEntries env doc kvs \<noteq> Inr True)"
  "unknownConjunctAny cs \<longrightarrow> (\<forall>doc. matchEvery env doc cs \<noteq> Inr True)"
proof (induction q and kvs and cs rule: unknownConjunct_unknownConjunctEntries_unknownConjunctAny.induct)
  case (10 k v rest)
  show ?case
  proof (intro impI allI)
    fix doc
    assume u: "unknownConjunctEntries ((k, v) # rest)"
    show "matchEntries env doc ((k, v) # rest) \<noteq> Inr True"
    proof (cases "unknownConjunctEntries rest")
      case True
      with 10 have "matchEntries env doc rest \<noteq> Inr True" by simp
      then show ?thesis by (simp split: sum.splits jsval.splits)
    next
      case False
      show ?thesis
      proof (cases "k = ''$or''")
        case True
        with u False show ?thesis by simp
      next
        case nor: False
        show ?thesis
        proof (cases "k = ''$and''")
          case True
          with u False nor obtain conds where v: "v = JArr conds" and c: "unknownConjunctAny conds"
            by (cases v) auto
          from 10(1) [OF nor True v] c have "matchEvery env doc conds \<noteq> Inr True" by simp
          with True nor v show ?thesis by (simp split: sum.splits)
        next
          case nand: False
          with u False nor have "isObject v"
            and "list_ex (\<lambda>kv. fst kv \<notin> supportedOperators) (entries v)" by auto
          from matchField_unknown [OF this] have "matchField env doc k v \<noteq> Inr True" .
          with nor nand show ?thesis by (simp split: sum.splits)
        qed
      qed
    qed
  qed
next
  case (12 c cs)
  then show ?case by (auto split: sum.splits)
qed simp_all

lemma filterDocuments_none:
  "(\<And>d. matchDocument env d q \<noteq> Inr True) \<Longrightarrow> filterDocuments env q docs = Inr rs \<Longrightarrow> rs = []"
proof (induction docs arbitrary: rs)
  case Nil
  then show ?case by simp
next
  case (Cons d docs)
  from Cons.prems(1) [of d] Cons.prems(2) Cons.IH [OF Cons.prems(1)]
  show ?case by (auto split: sum.splits if_splits)
qed

text \<open>
  C8, as stated, fails: a query that contains an unknown operator can match a document.
  The sub-query \<open>{age: {$foo: 1}}\<close> matches nothing, yet the query
  \<open>{$or: [{age: {$foo: 1}}, {name: 'John'}]}\<close> returns John. And a key of the query
  itself that looks like an operator, as \<open>$nor\<close>, is taken for a field name:
  \<open>{$nor: []}\<close> has no condition on that field and returns every document.
\<close>

theorem unknown_operator_under_or_counterexample:
  "''$foo'' \<notin> supportedOperators
   \<and> find_docs (fixtureEnv threeDocs noEncryption) (storeOf [1])
        (JObj [(''$or'', JArr [JObj [(''age'', JObj [(''$foo'', JNum 1)])],
                               JObj [(''name'', JStr ''John'')]])]) []
      = Inr [Plain docJohn]
   \<and> ''$nor'' \<notin> supportedOperators
   \<and> find_docs (fixtureEnv threeDocs noEncryption) (storeOf [1])
        (JObj [(''$nor'', JArr [])]) []
      = Inr [Plain docJohn, Plain docJane, Plain docMary]"
  by (simp add: find_docs_def fixture_simps matchField_def matchOperator_def sample_docs
      supportedOperators_def indexed_def)

text \<open>
  C8, amended. For an operator string outside \<open>$eq\<close>, \<open>$ne\<close>, \<open>$gt\<close>, \<open>$gte\<close>,
  \<open>$lt\<close>, \<open>$lte\<close>, \<open>$in\<close>, \<open>$nin\<close>, \<open>$regex\<close>, \<open>matchOperator\<close> returns false
  for every field value and operand. A query object matches no document when an unknown
  operator stands in one of its field conditions, or in a field condition of a sub-query
  listed under \<open>$and\<close>, at any depth of \<open>$and\<close>: \<open>matchDocument\<close> never returns true
  on it, and \<open>find\<close> returns the empty list unless the matcher throws. An unknown
  operator under \<open>$or\<close> only makes its own alternative fail.
\<close>

theorem unknown_operator_fails_closed:
  "(operator \<notin> supportedOperators \<longrightarrow> matchOperator env fieldValue operator v = Inr False)
   \<and> (unknownConjunct query \<longrightarrow>
         matchDocument env doc query \<noteq> Inr True
         \<and> (case find_docs env st query opts of Inl e \<Rightarrow> True | Inr rs \<Rightarrow> rs = []))"
proof (intro conjI impI)
  assume "operator \<notin> supportedOperators"
  then show "matchOperator env fieldValue operator v = Inr False" by (rule matchOperator_unknown)
next
  assume u: "unknownConjunct query"
  then have nomatch: "matchDocument env d query \<noteq> Inr True" for d
    using unknownConjunct_not_true(1) [of query env] by blast
  show "matchDocument env doc query \<noteq> Inr True" by (rule nomatch)
  from u have q: "orEmptyObject query = query" by (auto simp: orEmptyObject_def)
  show "case find_docs env st query opts of Inl e \<Rightarrow> True | Inr rs \<Rightarrow> rs = []"
  proof (cases "filterDocuments env query (loadData env st)")
    case (Inl e)
    then show ?thesis by (simp add: find_docs_def q)
  next
    case (Inr rs)
    with filterDocuments_none [OF nomatch] have "rs = []" by blast
    with Inr show ?thesis
      by (simp add: find_docs_def q slice_Nil sortDocuments_Nil)
  qed
qed

theorem unknown_operator_fails_closed_witness:
  "''$foo'' \<notin> supportedOperators
   \<and> unknownConjunct (JObj [(''$and'', JArr [JObj [(''name'', JStr ''John'')],
                                             JObj [(''age'', JObj [(''$foo'', JNum 1)])]])])
   \<and> matchOperator (fixtureEnv threeDocs noEncryption) (JNum 30) ''$foo'' (JNum 1) = Inr False
   \<and> matchDocument (fixtureEnv threeDocs noEncryption) (Plain docJohn)
        (JObj [(''$and'', JArr [JObj [(''name'', JStr ''John'')],
                                JObj [(''age'', JObj [(''$foo'', JNum 1)])]])]) \<noteq> Inr True
   \<and> find_docs (fixtureEnv threeDocs noEncryption) (storeOf [1])
        (JObj [(''$and'', JArr [JObj [(''name'', JStr ''John'')],
                                JObj [(''age'', JObj [(''$foo'', JNum 1)])]])]) [] = Inr []"
proof -
  have a: "''$foo'' \<notin> supportedOperators" by (simp add: supportedOperators_def)
  have u: "unknownConjunct (JObj [(''$and'', JArr [JObj [(''name'', JStr ''John'')],
                                             JObj [(''age'', JObj [(''$foo'', JNum 1)])]])])"
    by (simp add: supportedOperators_def)
  have f: "find_docs (fixtureEnv threeDocs noEncryption) (storeOf [1])
        (JObj [(''$and'', JArr [JObj [(''name'', JStr ''John'')],
                                JObj [(''age'', JObj [(''$foo'', JNum 1)])]])]) [] = Inr []"
    by (simp add: find_docs_def fixture_simps matchField_def matchOperator_def sample_docs)
  from unknown_operator_fails_closed [of "''$foo''" "fixtureEnv threeDocs noEncryption" "JNum 30"
      "JNum 1" "JObj [(''$and'', JArr [JObj [(''name'', JStr ''John'')],
                                JObj [(''age'', JObj [(''$foo'', JNum 1)])]])]" "Plain docJohn"]
    a u f
  show ?thesis by blast
qed

subsection \<open>Update application and the identifier\<close>

lemma getField_setField: "getField (setField d k v) k' = (if k' = k then v else getField d k')"
  by (induction d) (auto simp: getField_def)

lemma getField_deleteField:
  "getField (deleteField d k) k' = (if k' = k then JUndefined else getField d k')"
  by (induction d) (auto simp: getField_def deleteField_def)

lemma fold_setField_other:
  "k \<notin> fst ` set kvs \<Longrightarrow> getField (fold (\<lambda>kv acc. setField acc (fst kv) (snd kv)) kvs d) k = getField d k"
  by (induction kvs arbitrary: d) (auto simp: getField_setField)

lemma fold_deleteField_other:
  "k \<notin> fst ` set kvs \<Longrightarrow> getField (fold (\<lambda>kv acc. deleteField acc (fst kv)) kvs d) k = getField d k"
  by (induction kvs arbitrary: d) (auto simp: getField_deleteField)

lemma fold_incField_other:
  "k \<notin> fst ` set kvs \<Longrightarrow> getField (fold (\<lambda>kv acc. incField env acc (fst kv) (snd kv)) kvs d) k = getField d k"
  by (induction kvs arbitrary: d) (auto simp: incField_def getField_setField)

lemma fold_pushField_other:
  "k \<notin> fst ` set kvs \<Longrightarrow> getField (fold (\<lambda>kv acc. pushField acc (fst kv) (snd kv)) kvs d) k = getField d k"
  by (induction kvs arbitrary: d) (auto simp: pushField_def getField_setField)

lemma applyOperator_keeps_id:
  assumes "\<not> (operator \<in> {''$set'', ''$unset'', ''$inc'', ''$push''} \<and> ''_id'' \<in> set (map fst (entries v)))"
    and "applyOperator env u operator v = Inr u'"
  shows "getField u' ''_id'' = getField u ''_id''"
  using assms
  by (auto simp: applyOperator_def objectAssign_def ownEntries_def fold_setField_other
      fold_deleteField_other fold_incField_other fold_pushField_other split: if_splits sum.splits)

lemma applyOperators_keeps_id:
  "\<not> touchesId ops \<Longrightarrow> applyOperators env u ops = Inr u' \<Longrightarrow> getField u' ''_id'' = getField u ''_id''"
proof (induction ops arbitrary: u)
  case Nil
  then show ?case by simp
next
  case (Cons kv ops)
  obtain operator v where kv: "kv = (operator, v)" by (cases kv)
  from Cons.prems(2) kv obtain u1 where
    s1: "applyOperator env u operator v = Inr u1" and s2: "applyOperators env u1 ops = Inr u'"
    by (auto split: sum.splits)
  from Cons.prems(1) kv have
    n1: "\<not> (operator \<in> {''$set'', ''$unset'', ''$inc'', ''$push''} \<and> ''_id'' \<in> set (map fst (entries v)))"
    and n2: "\<not> touchesId ops"
    by (auto simp: touchesId_def)
  from applyOperator_keeps_id [OF n1 s1] Cons.IH [OF n2 s2] show ?case by simp
qed

lemma applyUpdate_id_unchanged:
  "\<not> touchesId update \<Longrightarrow> applyUpdate env doc update = Inr doc'
   \<Longrightarrow> getField doc' ''_id'' = getField doc ''_id''"
  by (simp add: applyUpdate_def applyOperators_keeps_id)




subsection \<open>updateOne with upsert\<close>

lemma loadData_cong: "dataFile a = dataFile b \<Longrightarrow> loadData env a = loadData env b"
  by (simp add: loadData_def)

lemma digits_chars: "c \<in> set (digits fuel n) \<Longrightarrow> (of_char c :: nat) < 58"
proof (induction fuel arbitrary: n)
  case 0
  then show ?case by simp
next
  case (Suc fuel)
  show ?case
  proof (cases "n < 10")
    case True
    with Suc.prems have "c = char_of (48 + n)" by simp
    with True show ?thesis by simp
  next
    case False
    with Suc.prems have "c \<in> set (digits fuel (n div 10)) \<or> c = char_of (48 + n mod 10)" by auto
    then show ?thesis
    proof
      assume "c \<in> set (digits fuel (n div 10))"
      then show ?thesis by (rule Suc.IH)
    next
      assume c: "c = char_of (48 + n mod 10)"
      have "(48 + n mod 10) mod 256 = 48 + n mod 10" by simp
      with c show ?thesis by simp
    qed
  qed
qed

lemma indexKey_not_id: "indexKey n \<noteq> ''_id''"
proof
  assume "indexKey n = ''_id''"
  then have "CHR ''_'' \<in> set (digits (Suc n) n)" by (simp add: indexKey_def)
  from digits_chars [OF this] show False by simp
qed

lemma indexed_no_id: "map_of (indexed xs) ''_id'' = None"
proof -
  have "''_id'' \<notin> set (map indexKey [0..<length xs])"
  proof
    assume "''_id'' \<in> set (map indexKey [0..<length xs])"
    then obtain n where "indexKey n = ''_id''" by auto
    with indexKey_not_id show False by blast
  qed
  then show ?thesis by (simp add: indexed_def map_of_zip_is_None)
qed

lemma map_of_setField: "map_of (setField d k v) k = Some v"
  by (induction d) auto

lemma elemGet_setId: "elemGet (setId e v) ''_id'' = v"
proof (cases e)
  case (Plain d)
  then show ?thesis by (simp add: getField_setField)
next
  case (ArrayObj xs props)
  then show ?thesis by (simp add: map_add_def indexed_no_id map_of_setField)
next
  case (OidObj h props)
  then show ?thesis by (simp add: getField_def map_of_setField)
qed

lemma getField_ownProps_id: "getField (ownProps e) ''_id'' = elemGet e ''_id''"
  by (cases e) (simp_all add: getField_def)

lemma truthy_assignId:
  assumes "assignId env n d = (Inr d', n')"
  shows "truthy (elemGet d' ''_id'')"
proof (cases "truthy (elemGet d ''_id'')")
  case False
  with assms show ?thesis by (auto simp: assignId_def elemGet_setId)
next
  case True
  show ?thesis
  proof (cases "elemGet d ''_id''")
    case (JStr s)
    with True assms show ?thesis
      by (cases "objectIdFromString env s") (auto simp: assignId_def elemGet_setId)
  qed (use True assms in \<open>auto simp: assignId_def\<close>)
qed

lemma insertDocument_unfold:
  assumes "assignId env (entropy st) d = (Inr d1, n)"
    and "saveData env (st\<lparr>entropy := n\<rparr>) (loadData env st @ [d1]) = (eo, st1)"
    and "imUpdateIndex env st1 d1 None = (ei, ix)"
  shows "insertDocument env st d =
     (case eo of Some e \<Rightarrow> (Inl e, st1)
      | None \<Rightarrow> (case ei of Some e \<Rightarrow> (Inl e, st1\<lparr>indexState := ix\<rparr>)
                 | None \<Rightarrow> (Inr d1, st1\<lparr>indexState := ix\<rparr>)))"
proof -
  have l: "loadData env (st\<lparr>entropy := n\<rparr>) = loadData env st" by (rule loadData_cong) simp
  show ?thesis
    by (simp add: insertDocument_def assms l split: option.splits)
qed

lemma insertOne_primitive:
  assumes "toElement v = None"
  shows "fst (insertOne env st v) = Inl TypeError \<and> dataFile (snd (insertOne env st v)) = dataFile st
     \<and> indexState (snd (insertOne env st v)) = indexState st"
  using assms by (simp add: insertOne_def)

text \<open>
  C7, as stated, fails in two ways. With a \<open>$set\<close> key that holds \<open>null\<close>, the document
  inserted is the update object itself, \<open>$set\<close> key included, not one derived from the
  \<open>$set\<close> payload. With a \<open>$set\<close> key that holds a number, nothing is inserted: the
  call throws a \<open>TypeError\<close> and the data file is as before.
\<close>

theorem updateOne_upsert_set_key_counterexample:
  "map_of [(''$set'', JNull), (''name'', JStr ''Zed'')] ''$set'' = Some JNull
   \<and> updateOne (fixtureEnv upsertTable noEncryption) (storeOf [1]) (JObj [(''name'', JStr ''Zed'')])
        [(''$set'', JNull), (''name'', JStr ''Zed'')] [(''upsert'', JBool True)]
      = (Inr (Some (Plain [(''$set'', JNull), (''name'', JStr ''Zed''), (''_id'', JOid ''f'')])),
         \<lparr> dataFile = Some [3], dataWritable = True, indexState = (), entropy = 1 \<rparr>)
   \<and> loadData (fixtureEnv upsertTable noEncryption)
        \<lparr> dataFile = Some [3], dataWritable = True, indexState = (), entropy = 1 \<rparr>
      = [Plain docJohn, Plain docJane, Plain docMary,
         Plain [(''$set'', JNull), (''name'', JStr ''Zed''), (''_id'', JOid ''f'')]]
   \<and> updateOne (fixtureEnv upsertTable noEncryption) (storeOf [1]) (JObj [(''name'', JStr ''Zed'')])
        [(''$set'', JNum 5)] [(''upsert'', JBool True)]
      = (Inl TypeError,
         \<lparr> dataFile = Some [1], dataWritable = True, indexState = (), entropy = 1 \<rparr>)"
  by (simp add: updateOne_def insertOne_def insertDocument_def assignId_def saveData_def
      encrypt_def fixtureEnv_def noEncryption_def storeOf_def upsertTable_def loadData_def
      readSnapshot_def decrypt_def getField_def matchField_def sample_docs docZed_def
      docNullSet_def upsertPayload_def)

text \<open>
  C7, amended. When no stored document matches and \<open>upsert\<close> is set, \<open>updateOne\<close>
  hands \<open>update.$set || update\<close> to \<open>insertOne\<close>: the \<open>$set\<close> payload when it is
  truthy, the update object itself otherwise. When that value is a primitive, the call
  throws a \<open>TypeError\<close> and neither the data file nor the index state changes. When it is
  an object \<open>d\<close>, identifier assignment makes \<open>d'\<close> of it, the snapshot of the stored
  documents followed by \<open>d'\<close> serializes, the data file can be written and the index
  update succeeds, the call returns \<open>d'\<close>, which has an identifier, and the data file
  holds the encrypted serialized snapshot; when those bytes read back as that snapshot,
  the stored array is the old one followed by \<open>d'\<close>.
\<close>

theorem updateOne_upsert_inserts:
  assumes nomatch: "findIndex env query (loadData env st) = Inr None"
    and upsert: "truthy (getField options ''upsert'')"
  shows "(toElement (upsertPayload update) = None \<longrightarrow>
            fst (updateOne env st query update options) = Inl TypeError
            \<and> dataFile (snd (updateOne env st query update options)) = dataFile st
            \<and> indexState (snd (updateOne env st query update options)) = indexState st)
     \<and> (toElement (upsertPayload update) = Some d
         \<and> assignId env (entropy st) d = (Inr d', n)
         \<and> bsonSerialize env (Snapshot (loadData env st @ [d'])) = Some b
         \<and> encrypt env (dbEncryption env) n b = (encryptedData, n')
         \<and> dataWritable st
         \<and> imUpdateIndex env (st\<lparr>dataFile := Some encryptedData, entropy := n'\<rparr>) d' None = (None, ix)
         \<longrightarrow>
            updateOne env st query update options
              = (Inr (Some d'), st\<lparr>dataFile := Some encryptedData, entropy := n', indexState := ix\<rparr>)
            \<and> truthy (elemGet d' ''_id'')
            \<and> (bsonDeserialize env (decrypt env (dbEncryption env) encryptedData)
                  = Some (Snapshot (loadData env st @ [d']))
                \<longrightarrow> loadData env (snd (updateOne env st query update options))
                      = loadData env st @ [d']))"
proof (intro conjI impI)
  have u: "updateOne env st query update options =
      (case insertOne env st (upsertPayload update) of
         (Inl e, st') \<Rightarrow> (Inl e, st')
       | (Inr inserted, st') \<Rightarrow> (Inr (Some inserted), st'))"
    using nomatch upsert by (simp add: updateOne_def upsertPayload_def)
  {
    assume p: "toElement (upsertPayload update) = None"
    obtain r st' where i: "insertOne env st (upsertPayload update) = (r, st')"
      by (cases "insertOne env st (upsertPayload update)")
    from insertOne_primitive [OF p, of env st] i have
      r: "r = Inl TypeError" and f: "dataFile st' = dataFile st"
      and x: "indexState st' = indexState st" by simp_all
    from u i r show "fst (updateOne env st query update options) = Inl TypeError" by simp
    from u i r f show "dataFile (snd (updateOne env st query update options)) = dataFile st"
      by simp
    from u i r x show "indexState (snd (updateOne env st query update options)) = indexState st"
      by simp
  }
  assume h: "toElement (upsertPayload update) = Some d
         \<and> assignId env (entropy st) d = (Inr d', n)
         \<and> bsonSerialize env (Snapshot (loadData env st @ [d'])) = Some b
         \<and> encrypt env (dbEncryption env) n b = (encryptedData, n')
         \<and> dataWritable st
         \<and> imUpdateIndex env (st\<lparr>dataFile := Some encryptedData, entropy := n'\<rparr>) d' None = (None, ix)"
  then have p: "toElement (upsertPayload update) = Some d"
    and a: "assignId env (entropy st) d = (Inr d', n)"
    and s: "bsonSerialize env (Snapshot (loadData env st @ [d'])) = Some b"
    and e: "encrypt env (dbEncryption env) n b = (encryptedData, n')"
    and w: "dataWritable st"
    and x: "imUpdateIndex env (st\<lparr>dataFile := Some encryptedData, entropy := n'\<rparr>) d' None = (None, ix)"
    by simp_all
  have sv: "saveData env (st\<lparr>entropy := n\<rparr>) (loadData env st @ [d'])
      = (None, st\<lparr>dataFile := Some encryptedData, entropy := n'\<rparr>)"
    using s e w by (simp add: saveData_def)
  from insertDocument_unfold [OF a sv x] have
    "insertDocument env st d
       = (Inr d', st\<lparr>dataFile := Some encryptedData, entropy := n', indexState := ix\<rparr>)"
    by simp
  with p have "insertOne env st (upsertPayload update)
       = (Inr d', st\<lparr>dataFile := Some encryptedData, entropy := n', indexState := ix\<rparr>)"
    by (simp add: insertOne_def)
  with u show r: "updateOne env st query update options
              = (Inr (Some d'), st\<lparr>dataFile := Some encryptedData, entropy := n', indexState := ix\<rparr>)"
    by simp
  from a show "truthy (elemGet d' ''_id'')" by (rule truthy_assignId)
  assume "bsonDeserialize env (decrypt env (dbEncryption env) encryptedData)
                  = Some (Snapshot (loadData env st @ [d']))"
  with r show "loadData env (snd (updateOne env st query update options)) = loadData env st @ [d']"
    by (simp add: loadData_def readSnapshot_def)
qed

theorem updateOne_upsert_inserts_witness:
  "updateOne (fixtureEnv upsertTable noEncryption) (storeOf [1]) (JObj [(''name'', JStr ''Zed'')])
      [(''$set'', JObj [(''name'', JStr ''Zed'')])] [(''upsert'', JBool True)]
     = (Inr (Some (Plain docZed)),
        \<lparr> dataFile = Some [2], dataWritable = True, indexState = (), entropy = 1 \<rparr>)
   \<and> truthy (elemGet (Plain docZed) ''_id'')
   \<and> loadData (fixtureEnv upsertTable noEncryption)
        (snd (updateOne (fixtureEnv upsertTable noEncryption) (storeOf [1])
               (JObj [(''name'', JStr ''Zed'')])
               [(''$set'', JObj [(''name'', JStr ''Zed'')])] [(''upsert'', JBool True)]))
      = [Plain docJohn, Plain docJane, Plain docMary, Plain docZed]
   \<and> fst (updateOne (fixtureEnv upsertTable noEncryption) (storeOf [1])
            (JObj [(''name'', JStr ''Zed'')]) [(''$set'', JStr ''Zed'')] [(''upsert'', JBool True)])
      = Inl TypeError
   \<and> dataFile (snd (updateOne (fixtureEnv upsertTable noEncryption) (storeOf [1])
            (JObj [(''name'', JStr ''Zed'')]) [(''$set'', JStr ''Zed'')] [(''upsert'', JBool True)]))
      = Some [1]"
proof -
  let ?E = "fixtureEnv upsertTable noEncryption"
  let ?q = "JObj [(''name'', JStr ''Zed'')]"
  let ?u = "[(''$set'', JObj [(''name'', JStr ''Zed'')])]"
  let ?o = "[(''upsert'', JBool True)]"
  have l: "loadData ?E (storeOf [1]) = [Plain docJohn, Plain docJane, Plain docMary]"
    by (simp add: fixtureEnv_def noEncryption_def storeOf_def upsertTable_def loadData_def
        readSnapshot_def decrypt_def)
  have a: "findIndex ?E ?q (loadData ?E (storeOf [1])) = Inr None"
    unfolding l by (simp add: matchField_def sample_docs getField_def)
  have b: "truthy (getField ?o ''upsert'')" by (simp add: getField_def)
  have h: "toElement (upsertPayload ?u) = Some (Plain [(''name'', JStr ''Zed'')])
     \<and> assignId ?E (entropy (storeOf [1])) (Plain [(''name'', JStr ''Zed'')]) = (Inr (Plain docZed), 1)
     \<and> bsonSerialize ?E (Snapshot (loadData ?E (storeOf [1]) @ [Plain docZed])) = Some [2]
     \<and> encrypt ?E (dbEncryption ?E) 1 [2] = ([2], 1)
     \<and> dataWritable (storeOf [1])
     \<and> imUpdateIndex ?E ((storeOf [1])\<lparr>dataFile := Some [2], entropy := 1\<rparr>) (Plain docZed) None
         = (None, ())"
    unfolding l
    by (simp add: upsertPayload_def getField_def assignId_def docZed_def sample_docs encrypt_def
        fixtureEnv_def noEncryption_def storeOf_def upsertTable_def)
  have r: "bsonDeserialize ?E (decrypt ?E (dbEncryption ?E) [2])
       = Some (Snapshot (loadData ?E (storeOf [1]) @ [Plain docZed]))"
    unfolding l
    by (simp add: fixtureEnv_def noEncryption_def upsertTable_def decrypt_def)
  have p: "toElement (upsertPayload [(''$set'', JStr ''Zed'')]) = None"
    by (simp add: upsertPayload_def getField_def)
  from updateOne_upsert_inserts [OF a b, of ?u "Plain [(''name'', JStr ''Zed'')]" "Plain docZed" 1
      "[2]" "[2]" 1 "()"] h r
  have c1: "updateOne ?E (storeOf [1]) ?q ?u ?o
        = (Inr (Some (Plain docZed)),
           (storeOf [1])\<lparr>dataFile := Some [2], entropy := 1, indexState := ()\<rparr>)"
    and c2: "truthy (elemGet (Plain docZed) ''_id'')"
    and c3: "loadData ?E (snd (updateOne ?E (storeOf [1]) ?q ?u ?o))
        = loadData ?E (storeOf [1]) @ [Plain docZed]"
    by blast+
  from updateOne_upsert_inserts [OF a b, of "[(''$set'', JStr ''Zed'')]"] p
  have c4: "fst (updateOne ?E (storeOf [1]) ?q [(''$set'', JStr ''Zed'')] ?o) = Inl TypeError"
    and c5: "dataFile (snd (updateOne ?E (storeOf [1]) ?q [(''$set'', JStr ''Zed'')] ?o))
        = dataFile (storeOf [1])"
    by blast+
  from c1 have c1': "updateOne ?E (storeOf [1]) ?q ?u ?o
        = (Inr (Some (Plain docZed)),
           \<lparr> dataFile = Some [2], dataWritable = True, indexState = (), entropy = 1 \<rparr>)"
    by (simp add: storeOf_def)
  from c3 have c3': "loadData ?E (snd (updateOne ?E (storeOf [1]) ?q ?u ?o))
        = [Plain docJohn, Plain docJane, Plain docMary, Plain docZed]"
    unfolding l by simp
  from c5 have c5': "dataFile (snd (updateOne ?E (storeOf [1]) ?q [(''$set'', JStr ''Zed'')] ?o))
        = Some [1]"
    by (simp add: storeOf_def)
  from c1' c2 c3' c4 c5' show ?thesis by (intro conjI)
qed

subsection \<open>Uniqueness of identifiers\<close>

lemma saveData_ok_load:
  assumes "keptRoundTrip env kept" and "list_all kept docs"
    and "saveData env st docs = (None, st1)"
  shows "loadData env st1 = docs"
proof (cases "bsonSerialize env (Snapshot docs)")
  case None
  with assms(3) show ?thesis by (simp add: saveData_def)
next
  case (Some b)
  obtain enc n where e: "encrypt env (dbEncryption env) (entropy st) b = (enc, n)"
    by (cases "encrypt env (dbEncryption env) (entropy st) b")
  show ?thesis
  proof (cases "dataWritable st")
    case False
    with assms(3) Some e show ?thesis by (simp add: saveData_def)
  next
    case True
    with assms(3) Some e have st1: "st1 = st\<lparr>dataFile := Some enc, entropy := n\<rparr>"
      by (simp add: saveData_def)
    from assms(1,2) Some have "bsonDeserialize env
          (decrypt env (dbEncryption env) (fst (encrypt env (dbEncryption env) (entropy st) b)))
            = Some (Snapshot docs)"
      unfolding keptRoundTrip_def by blast
    with e st1 show ?thesis by (simp add: loadData_def readSnapshot_def)
  qed
qed

lemma saveData_fail_dataFile:
  assumes "saveData env st docs = (Some e, st1)"
  shows "dataFile st1 = dataFile st"
proof (cases "bsonSerialize env (Snapshot docs)")
  case None
  with assms show ?thesis by (auto simp: saveData_def)
next
  case (Some b)
  obtain enc n where e: "encrypt env (dbEncryption env) (entropy st) b = (enc, n)"
    by (cases "encrypt env (dbEncryption env) (entropy st) b")
  with assms Some show ?thesis by (cases "dataWritable st") (auto simp: saveData_def)
qed

text \<open>What a call that saves once leaves in the data file: the list it had, or the list
  it saved.\<close>

lemma save_step:
  assumes rt: "keptRoundTrip env kept" and k: "list_all kept docs"
    and s: "saveData env st0 docs = (eo, st1)"
    and d0: "dataFile st0 = dataFile st"
    and d': "dataFile st' = dataFile st1"
  shows "loadData env st' = loadData env st \<or> loadData env st' = docs"
proof (cases eo)
  case None
  with saveData_ok_load [OF rt k] s have "loadData env st1 = docs" by simp
  moreover from d' have "loadData env st' = loadData env st1" by (rule loadData_cong)
  ultimately show ?thesis by simp
next
  case (Some e)
  with s have "dataFile st1 = dataFile st0" by (simp add: saveData_fail_dataFile)
  with d0 d' have "dataFile st' = dataFile st" by simp
  then have "loadData env st' = loadData env st" by (rule loadData_cong)
  then show ?thesis by simp
qed

lemma insertDocument_load:
  assumes rt: "keptRoundTrip env kept" and i: "insertDocument env st d = (r, st')"
    and k: "list_all kept (loadData env st)"
    and kd: "\<And>d'. fst (assignId env (entropy st) d) = Inr d' \<Longrightarrow> kept d'"
  shows "loadData env st' = loadData env st
     \<or> (\<exists>d'. fst (assignId env (entropy st) d) = Inr d' \<and> loadData env st' = loadData env st @ [d'])"
proof -
  obtain ra n where a: "assignId env (entropy st) d = (ra, n)"
    by (cases "assignId env (entropy st) d")
  show ?thesis
  proof (cases ra)
    case (Inl e)
    with a i have "st' = st\<lparr>entropy := n\<rparr>" by (simp add: insertDocument_def)
    then have "loadData env st' = loadData env st" by (intro loadData_cong) simp
    then show ?thesis by simp
  next
    case (Inr d1)
    obtain eo st1 where s: "saveData env (st\<lparr>entropy := n\<rparr>) (loadData env st @ [d1]) = (eo, st1)"
      by (cases "saveData env (st\<lparr>entropy := n\<rparr>) (loadData env st @ [d1])")
    obtain ei ix where x: "imUpdateIndex env st1 d1 None = (ei, ix)"
      by (cases "imUpdateIndex env st1 d1 None")
    note u = insertDocument_unfold [OF a [unfolded Inr] s x]
    from a Inr kd have "kept d1" by simp
    with k have k1: "list_all kept (loadData env st @ [d1])" by simp
    from i u have "dataFile st' = dataFile st1" by (cases eo; cases ei) auto
    with save_step [OF rt k1 s, of st st'] a Inr show ?thesis by auto
  qed
qed

lemma insertOne_load:
  assumes rt: "keptRoundTrip env kept" and i: "insertOne env st v = (r, st')"
    and k: "list_all kept (loadData env st)"
    and kd: "\<And>d d'. toElement v = Some d \<Longrightarrow> fst (assignId env (entropy st) d) = Inr d' \<Longrightarrow> kept d'"
  shows "loadData env st' = loadData env st
     \<or> (\<exists>d d'. toElement v = Some d \<and> fst (assignId env (entropy st) d) = Inr d'
            \<and> loadData env st' = loadData env st @ [d'])"
proof (cases "toElement v")
  case None
  with i have "dataFile st' = dataFile st" by (auto simp: insertOne_def split: if_splits)
  then have "loadData env st' = loadData env st" by (rule loadData_cong)
  then show ?thesis by simp
next
  case (Some d)
  with i have "insertDocument env st d = (r, st')" by (simp add: insertOne_def)
  from insertDocument_load [OF rt this k kd [OF Some]] Some show ?thesis by auto
qed

lemma updateIndexEach_dataFile: "dataFile (snd (updateIndexEach env st ds)) = dataFile st"
proof (induction ds arbitrary: st)
  case Nil
  then show ?case by simp
next
  case (Cons d ds)
  obtain ei ix where i: "imUpdateIndex env st d None = (ei, ix)"
    by (cases "imUpdateIndex env st d None")
  show ?case
  proof (cases ei)
    case None
    with i Cons.IH [of "st\<lparr>indexState := ix\<rparr>"] show ?thesis by simp
  next
    case (Some e)
    with i show ?thesis by simp
  qed
qed

lemma removeFromIndexEach_dataFile: "dataFile (snd (removeFromIndexEach env st ds)) = dataFile st"
proof (induction ds arbitrary: st)
  case Nil
  then show ?case by simp
next
  case (Cons d ds)
  obtain ei ix where i: "imRemoveFromIndex env st d = (ei, ix)"
    by (cases "imRemoveFromIndex env st d")
  show ?case
  proof (cases ei)
    case None
    with i Cons.IH [of "st\<lparr>indexState := ix\<rparr>"] show ?thesis by simp
  next
    case (Some e)
    with i show ?thesis by simp
  qed
qed

lemma insertMany_load:
  assumes rt: "keptRoundTrip env kept" and i: "insertMany env st objects refs = (r, st')"
    and k: "list_all kept (loadData env st)"
    and kd: "\<And>objects'. fst (assignIds env (entropy st) objects refs) = Inr objects'
               \<Longrightarrow> list_all kept (map (\<lambda>r. objects' ! r) refs)"
  shows "loadData env st' = loadData env st
     \<or> (\<exists>objects'. fst (assignIds env (entropy st) objects refs) = Inr objects'
           \<and> loadData env st' = loadData env st @ map (\<lambda>r. objects' ! r) refs)"
proof -
  obtain ra n where a: "assignIds env (entropy st) objects refs = (ra, n)"
    by (cases "assignIds env (entropy st) objects refs")
  have l: "loadData env (st\<lparr>entropy := n\<rparr>) = loadData env st" by (rule loadData_cong) simp
  show ?thesis
  proof (cases ra)
    case (Inl e)
    with a i have "st' = st\<lparr>entropy := n\<rparr>" by (simp add: insertMany_def)
    with l show ?thesis by simp
  next
    case (Inr os)
    let ?ds = "map (\<lambda>r. os ! r) refs"
    obtain eo st1 where s: "saveData env (st\<lparr>entropy := n\<rparr>) (loadData env st @ ?ds) = (eo, st1)"
      by (cases "saveData env (st\<lparr>entropy := n\<rparr>) (loadData env st @ ?ds)")
    obtain ei st2 where x: "updateIndexEach env st1 ?ds = (ei, st2)"
      by (cases "updateIndexEach env st1 ?ds")
    from updateIndexEach_dataFile [of env st1 ?ds] x have d2: "dataFile st2 = dataFile st1" by simp
    from a Inr kd have "list_all kept ?ds" by simp
    with k have k1: "list_all kept (loadData env st @ ?ds)" by simp
    from i a Inr s l x d2 have "dataFile st' = dataFile st1"
      by (cases eo; cases ei) (auto simp: insertMany_def)
    with save_step [OF rt k1 s, of st st'] a Inr show ?thesis by auto
  qed
qed

lemma findIndex_less: "findIndex env q docs = Inr (Some i) \<Longrightarrow> i < length docs"
proof (induction docs arbitrary: i)
  case Nil
  then show ?case by simp
next
  case (Cons d docs)
  show ?case
  proof (cases "matchDocument env d q")
    case (Inl e)
    with Cons.prems show ?thesis by simp
  next
    case (Inr b)
    show ?thesis
    proof (cases b)
      case True
      with Inr Cons.prems show ?thesis by simp
    next
      case False
      with Inr Cons.prems obtain j where "findIndex env q docs = Inr (Some j)" and "i = Suc j"
        by (auto split: sum.splits option.splits)
      with Cons.IH show ?thesis by simp
    qed
  qed
qed

lemma list_all_update: "list_all P xs \<Longrightarrow> P x \<Longrightarrow> list_all P (xs[i := x])"
  by (auto simp: list_all_iff dest: set_update_subset_insert [THEN subsetD])

lemma updateOne_load:
  assumes rt: "keptRoundTrip env kept" and u: "updateOne env st q upd opts = (r, st')"
    and k: "list_all kept (loadData env st)"
    and kd: "\<And>d d'. findIndex env q (loadData env st) = Inr None
               \<Longrightarrow> truthy (getField opts ''upsert'')
               \<Longrightarrow> toElement (upsertPayload upd) = Some d
               \<Longrightarrow> fst (assignId env (entropy st) d) = Inr d' \<Longrightarrow> kept d'"
    and ku: "\<And>i d'. findIndex env q (loadData env st) = Inr (Some i)
               \<Longrightarrow> applyUpdate env (ownProps (loadData env st ! i)) upd = Inr d'
               \<Longrightarrow> kept (Plain d')"
  shows "loadData env st' = loadData env st
     \<or> (\<exists>d d'. findIndex env q (loadData env st) = Inr None \<and> truthy (getField opts ''upsert'')
           \<and> toElement (upsertPayload upd) = Some d
           \<and> fst (assignId env (entropy st) d) = Inr d'
           \<and> loadData env st' = loadData env st @ [d'])
     \<or> (\<exists>i d'. findIndex env q (loadData env st) = Inr (Some i) \<and> i < length (loadData env st)
           \<and> applyUpdate env (ownProps (loadData env st ! i)) upd = Inr d'
           \<and> loadData env st' = (loadData env st)[i := Plain d'])"
proof (cases "findIndex env q (loadData env st)")
  case (Inl e)
  with u show ?thesis by (simp add: updateOne_def)
next
  case (Inr oi)
  show ?thesis
  proof (cases oi)
    case None
    show ?thesis
    proof (cases "truthy (getField opts ''upsert'')")
      case False
      with u Inr None show ?thesis by (simp add: updateOne_def)
    next
      case True
      obtain r1 st1 where i: "insertOne env st (upsertPayload upd) = (r1, st1)"
        by (cases "insertOne env st (upsertPayload upd)")
      with u Inr None True have "st' = st1"
        by (cases r1) (simp_all add: updateOne_def upsertPayload_def)
      with insertOne_load [OF rt i k kd] Inr None True show ?thesis by auto
    qed
  next
    case (Some i)
    with Inr have fi: "findIndex env q (loadData env st) = Inr (Some i)" by simp
    from findIndex_less [OF fi] have il: "i < length (loadData env st)" .
    show ?thesis
    proof (cases "applyUpdate env (ownProps (loadData env st ! i)) upd")
      case (Inl e)
      with u fi show ?thesis by (simp add: updateOne_def)
    next
      case (Inr d')
      let ?docs = "(loadData env st)[i := Plain d']"
      obtain eo st1 where s: "saveData env st ?docs = (eo, st1)"
        by (cases "saveData env st ?docs")
      obtain ei ix where ix: "imUpdateIndex env st1 (Plain d') (Some (loadData env st ! i)) = (ei, ix)"
        by (cases "imUpdateIndex env st1 (Plain d') (Some (loadData env st ! i))")
      from ku [OF fi Inr] k have k1: "list_all kept ?docs" by (simp add: list_all_update)
      from u fi Inr s ix have "dataFile st' = dataFile st1"
        by (cases eo; cases ei) (auto simp: updateOne_def)
      with save_step [OF rt k1 s, of st st'] fi il Inr show ?thesis by auto
    qed
  qed
qed

lemma updateManyLoop_dataFile:
  "dataFile (snd (updateManyLoop env st q upd docs)) = dataFile st"
proof (induction docs arbitrary: st)
  case Nil
  then show ?case by simp
next
  case (Cons d docs)
  show ?case
  proof (cases "matchDocument env d q")
    case (Inl e)
    then show ?thesis by simp
  next
    case (Inr b)
    show ?thesis
    proof (cases b)
      case False
      with Inr Cons.IH [of st] show ?thesis
        by (cases "updateManyLoop env st q upd docs") (auto split: sum.splits)
    next
      case True
      show ?thesis
      proof (cases "applyUpdate env (ownProps d) upd")
        case (Inl e)
        with Inr True show ?thesis by simp
      next
        case u: (Inr u)
        obtain ei ix where i: "imUpdateIndex env st (Plain u) (Some d) = (ei, ix)"
          by (cases "imUpdateIndex env st (Plain u) (Some d)")
        show ?thesis
        proof (cases ei)
          case (Some e)
          with Inr True u i show ?thesis by simp
        next
          case None
          with Inr True u i Cons.IH [of "st\<lparr>indexState := ix\<rparr>"] show ?thesis
            by (cases "updateManyLoop env (st\<lparr>indexState := ix\<rparr>) q upd docs")
              (auto split: sum.splits)
        qed
      qed
    qed
  qed
qed

lemma applyUpdate_element_id:
  "\<not> touchesId upd \<Longrightarrow> applyUpdate env (ownProps d) upd = Inr u
   \<Longrightarrow> elemGet (Plain u) ''_id'' = elemGet d ''_id''"
  using applyUpdate_id_unchanged [of upd env "ownProps d" u] by (simp add: getField_ownProps_id)

lemma updateManyLoop_ids:
  assumes "\<not> touchesId upd"
    and "list_all (\<lambda>d. matchDocument env d q = Inr True \<longrightarrow> keptUpdate env kept upd d) docs"
    and "list_all kept docs"
  shows "updateManyLoop env st q upd docs = (Inr (docs', results), st1)
     \<Longrightarrow> idsOf docs' = idsOf docs \<and> list_all kept docs'"
  using assms(2,3)
proof (induction docs arbitrary: st docs' results st1)
  case Nil
  then show ?case by simp
next
  case (Cons d docs)
  from Cons.prems have ku: "list_all (\<lambda>d. matchDocument env d q = Inr True \<longrightarrow> keptUpdate env kept upd d) docs"
    and kk: "list_all kept docs" and kd: "kept d"
    and kud: "matchDocument env d q = Inr True \<longrightarrow> keptUpdate env kept upd d" by simp_all
  show ?case
  proof (cases "matchDocument env d q")
    case (Inl e)
    with Cons.prems show ?thesis by simp
  next
    case (Inr b)
    show ?thesis
    proof (cases b)
      case False
      obtain r2 st2 where rec: "updateManyLoop env st q upd docs = (r2, st2)"
        by (cases "updateManyLoop env st q upd docs")
      with Cons.prems(1) Inr False obtain docs2 results2 where
        r2: "r2 = Inr (docs2, results2)" and d': "docs' = d # docs2"
        by (cases r2) auto
      from Cons.IH [OF rec [unfolded r2] ku kk] d' kd show ?thesis by simp
    next
      case True
      show ?thesis
      proof (cases "applyUpdate env (ownProps d) upd")
        case (Inl e)
        with Cons.prems(1) Inr True show ?thesis by simp
      next
        case u: (Inr u)
        obtain ei ix where i: "imUpdateIndex env st (Plain u) (Some d) = (ei, ix)"
          by (cases "imUpdateIndex env st (Plain u) (Some d)")
        from kud Inr True u have ku1: "kept (Plain u)" by (simp add: keptUpdate_def)
        show ?thesis
        proof (cases ei)
          case (Some e)
          with Cons.prems(1) Inr True u i show ?thesis by simp
        next
          case None
          obtain r2 st2 where rec: "updateManyLoop env (st\<lparr>indexState := ix\<rparr>) q upd docs = (r2, st2)"
            by (cases "updateManyLoop env (st\<lparr>indexState := ix\<rparr>) q upd docs")
          with Cons.prems(1) Inr True u i None obtain docs2 results2 where
            r2: "r2 = Inr (docs2, results2)" and d': "docs' = Plain u # docs2"
            by (cases r2) auto
          from applyUpdate_element_id [OF assms(1) u] Cons.IH [OF rec [unfolded r2] ku kk] d' ku1
          show ?thesis by simp
        qed
      qed
    qed
  qed
qed

lemma updateMany_load:
  assumes rt: "keptRoundTrip env kept" and nt: "\<not> touchesId upd"
    and u: "updateMany env st q upd = (r, st')"
    and k: "list_all kept (loadData env st)"
    and ku: "list_all (\<lambda>d. matchDocument env d q = Inr True \<longrightarrow> keptUpdate env kept upd d)
               (loadData env st)"
  shows "idsOf (loadData env st') = idsOf (loadData env st) \<and> list_all kept (loadData env st')"
proof -
  obtain rl st1 where l: "updateManyLoop env st q upd (loadData env st) = (rl, st1)"
    by (cases "updateManyLoop env st q upd (loadData env st)")
  from updateManyLoop_dataFile [of env st q upd "loadData env st"] l
  have d1: "dataFile st1 = dataFile st" by simp
  then have l1: "loadData env st1 = loadData env st" by (rule loadData_cong)
  show ?thesis
  proof (cases rl)
    case (Inl e)
    with u l have "st' = st1" by (simp add: updateMany_def)
    with l1 k show ?thesis by simp
  next
    case (Inr p)
    obtain docs' results where p: "p = (docs', results)" by (cases p)
    from updateManyLoop_ids [OF nt ku k l [unfolded Inr p]]
    have ids: "idsOf docs' = idsOf (loadData env st)" and k': "list_all kept docs'" by simp_all
    show ?thesis
    proof (cases "length results > 0")
      case False
      with u l Inr p have "st' = st1" by (simp add: updateMany_def)
      with l1 k show ?thesis by simp
    next
      case True
      obtain eo st2 where s: "saveData env st1 docs' = (eo, st2)"
        by (cases "saveData env st1 docs'")
      from u l Inr p True s have st': "st' = st2" by (cases eo) (simp_all add: updateMany_def)
      from save_step [OF rt k' s d1, of st'] st'
      have "loadData env st' = loadData env st \<or> loadData env st' = docs'" by simp
      with ids k k' show ?thesis by auto
    qed
  qed
qed

lemma deleteOne_load:
  assumes rt: "keptRoundTrip env kept" and u: "deleteOne env st q = (r, st')"
    and k: "list_all kept (loadData env st)"
  shows "loadData env st' = loadData env st
     \<or> (\<exists>i. loadData env st' = take i (loadData env st) @ drop (Suc i) (loadData env st))"
proof (cases "findIndex env q (loadData env st)")
  case (Inl e)
  with u show ?thesis by (simp add: deleteOne_def)
next
  case (Inr oi)
  show ?thesis
  proof (cases oi)
    case None
    with u Inr show ?thesis by (simp add: deleteOne_def)
  next
    case (Some i)
    let ?rem = "take i (loadData env st) @ drop (Suc i) (loadData env st)"
    obtain eo st1 where s: "saveData env st ?rem = (eo, st1)" by (cases "saveData env st ?rem")
    obtain ei ix where ix: "imRemoveFromIndex env st1 (loadData env st ! i) = (ei, ix)"
      by (cases "imRemoveFromIndex env st1 (loadData env st ! i)")
    from k have k1: "list_all kept ?rem"
      by (auto simp: list_all_iff dest: in_set_takeD in_set_dropD)
    from u Inr Some s ix have "dataFile st' = dataFile st1"
      by (cases eo; cases ei) (auto simp: deleteOne_def)
    with save_step [OF rt k1 s, of st st'] show ?thesis by auto
  qed
qed

lemma partitionDocuments_remaining:
  "partitionDocuments env q docs = Inr (del, rem) \<Longrightarrow> distinct (idsOf docs)
   \<Longrightarrow> distinct (idsOf rem) \<and> set (idsOf rem) \<subseteq> set (idsOf docs) \<and> set rem \<subseteq> set docs"
proof (induction docs arbitrary: del rem)
  case Nil
  then show ?case by simp
next
  case (Cons d docs)
  from Cons.prems(1) obtain b del2 rem2 where
    m: "matchDocument env d q = Inr b"
    and p: "partitionDocuments env q docs = Inr (del2, rem2)"
    and r: "rem = (if b then rem2 else d # rem2)"
    by (auto split: sum.splits prod.splits if_splits)
  from Cons.IH [OF p] Cons.prems(2) have "distinct (idsOf rem2)"
    "set (idsOf rem2) \<subseteq> set (idsOf docs)" "set rem2 \<subseteq> set docs"
    by auto
  with r Cons.prems(2) show ?case by auto
qed

lemma deleteMany_load:
  assumes rt: "keptRoundTrip env kept" and u: "deleteMany env st q = (r, st')"
    and dist: "distinct (idsOf (loadData env st))"
    and k: "list_all kept (loadData env st)"
  shows "distinct (idsOf (loadData env st')) \<and> list_all kept (loadData env st')"
proof (cases "partitionDocuments env q (loadData env st)")
  case (Inl e)
  with u dist k show ?thesis by (simp add: deleteMany_def)
next
  case (Inr p)
  obtain del rem where p: "p = (del, rem)" by (cases p)
  from partitionDocuments_remaining [OF Inr [unfolded p] dist]
  have dr: "distinct (idsOf rem)" and sr: "set rem \<subseteq> set (loadData env st)" by simp_all
  from sr k have kr: "list_all kept rem" by (auto simp: list_all_iff)
  show ?thesis
  proof (cases "length del > 0")
    case False
    with u Inr p dist k show ?thesis by (simp add: deleteMany_def)
  next
    case True
    obtain eo st1 where s: "saveData env st rem = (eo, st1)" by (cases "saveData env st rem")
    obtain ei st2 where i: "removeFromIndexEach env st1 del = (ei, st2)"
      by (cases "removeFromIndexEach env st1 del")
    from removeFromIndexEach_dataFile [of env st1 del] i have d2: "dataFile st2 = dataFile st1" by simp
    from u Inr p True s i d2 have "dataFile st' = dataFile st1"
      by (cases eo; cases ei) (auto simp: deleteMany_def)
    from save_step [OF rt kr s _ this, of st]
    have "loadData env st' = loadData env st \<or> loadData env st' = rem" by simp
    with dist k dr kr show ?thesis by auto
  qed
qed

lemma assignIds_single:
  "fst (assignId env n d) = Inr d' \<Longrightarrow> fst (assignIds env n [d] [0]) = Inr [d']"
  by (cases "assignId env n d") (auto split: sum.splits)

lemma freshIds_single:
  assumes "freshIds env kept st [d] [0]" and "fst (assignId env (entropy st) d) = Inr d'"
  shows "kept d' \<and> elemGet d' ''_id'' \<notin> set (storedIds env st)"
  using assms(1) assignIds_single [OF assms(2)] by (simp add: freshIds_def)

lemma distinct_remove_nth: "distinct xs \<Longrightarrow> distinct (take i xs @ drop (Suc i) xs)"
  by (metis distinct_take distinct_drop distinct_append le_SucI order_refl
      set_take_disj_set_drop_if_distinct)

lemma perform_unique:
  assumes rt: "keptRoundTrip env kept" and un: "uniqueIds env st"
    and k: "list_all kept (loadData env st)" and ad: "admissible env kept st oper"
  shows "uniqueIds env (perform env st oper) \<and> list_all kept (loadData env (perform env st oper))"
proof (cases oper)
  case (InsertOne v)
  obtain r st' where i: "insertOne env st v = (r, st')" by (cases "insertOne env st v")
  have kd: "kept d' \<and> elemGet d' ''_id'' \<notin> set (storedIds env st)"
    if "toElement v = Some d" "fst (assignId env (entropy st) d) = Inr d'" for d d'
    using ad InsertOne that by (intro freshIds_single [of env kept st d d']) (simp_all add: admissible_def)
  from kd have "kept d'"
    if "toElement v = Some d" "fst (assignId env (entropy st) d) = Inr d'" for d d'
    using that by blast
  from insertOne_load [OF rt i k this] show ?thesis
  proof
    assume "loadData env st' = loadData env st"
    with un k i InsertOne show ?thesis by (simp add: perform_def uniqueIds_def storedIds_def)
  next
    assume "\<exists>d d'. toElement v = Some d \<and> fst (assignId env (entropy st) d) = Inr d'
            \<and> loadData env st' = loadData env st @ [d']"
    then obtain d d' where v: "toElement v = Some d" and a: "fst (assignId env (entropy st) d) = Inr d'"
      and l: "loadData env st' = loadData env st @ [d']" by blast
    from kd [OF v a] un k l i InsertOne show ?thesis
      by (simp add: perform_def uniqueIds_def storedIds_def)
  qed
next
  case (InsertMany objects refs)
  obtain r st' where i: "insertMany env st objects refs = (r, st')"
    by (cases "insertMany env st objects refs")
  have kd: "list_all kept (map (\<lambda>r. os ! r) refs) \<and> distinct (idsOf (map (\<lambda>r. os ! r) refs))
      \<and> list_all (\<lambda>d. elemGet d ''_id'' \<notin> set (storedIds env st)) (map (\<lambda>r. os ! r) refs)"
    if "fst (assignIds env (entropy st) objects refs) = Inr os" for os
    using ad InsertMany that by (simp add: admissible_def freshIds_def Let_def)
  from kd have "list_all kept (map (\<lambda>r. os ! r) refs)"
    if "fst (assignIds env (entropy st) objects refs) = Inr os" for os
    using that by blast
  from insertMany_load [OF rt i k this] show ?thesis
  proof
    assume "loadData env st' = loadData env st"
    with un k i InsertMany show ?thesis by (simp add: perform_def uniqueIds_def storedIds_def)
  next
    assume "\<exists>os. fst (assignIds env (entropy st) objects refs) = Inr os
           \<and> loadData env st' = loadData env st @ map (\<lambda>r. os ! r) refs"
    then obtain os where a: "fst (assignIds env (entropy st) objects refs) = Inr os"
      and l: "loadData env st' = loadData env st @ map (\<lambda>r. os ! r) refs" by blast
    let ?ds = "map (\<lambda>r. os ! r) refs"
    from kd [OF a] have "list_all kept ?ds" "distinct (idsOf ?ds)"
      and "set (storedIds env st) \<inter> set (idsOf ?ds) = {}"
      by (auto simp: list_all_iff)
    with un k l i InsertMany show ?thesis by (simp add: perform_def uniqueIds_def storedIds_def)
  qed
next
  case (UpdateOne q upd opts)
  obtain r st' where i: "updateOne env st q upd opts = (r, st')"
    by (cases "updateOne env st q upd opts")
  have kd: "kept d' \<and> elemGet d' ''_id'' \<notin> set (storedIds env st)"
    if "findIndex env q (loadData env st) = Inr None" "truthy (getField opts ''upsert'')"
      "toElement (upsertPayload upd) = Some d" "fst (assignId env (entropy st) d) = Inr d'" for d d'
    using ad UpdateOne that by (intro freshIds_single [of env kept st d d']) (simp_all add: admissible_def)
  have ku: "\<not> touchesId upd \<and> kept (Plain d')"
    if "findIndex env q (loadData env st) = Inr (Some j)"
      "applyUpdate env (ownProps (loadData env st ! j)) upd = Inr d'" for j d'
    using ad UpdateOne that by (simp add: admissible_def keptUpdate_def)
  have "loadData env st' = loadData env st
     \<or> (\<exists>d d'. findIndex env q (loadData env st) = Inr None \<and> truthy (getField opts ''upsert'')
           \<and> toElement (upsertPayload upd) = Some d
           \<and> fst (assignId env (entropy st) d) = Inr d'
           \<and> loadData env st' = loadData env st @ [d'])
     \<or> (\<exists>i d'. findIndex env q (loadData env st) = Inr (Some i) \<and> i < length (loadData env st)
           \<and> applyUpdate env (ownProps (loadData env st ! i)) upd = Inr d'
           \<and> loadData env st' = (loadData env st)[i := Plain d'])"
  proof (rule updateOne_load [OF rt i k])
    fix d d'
    assume "findIndex env q (loadData env st) = Inr None" "truthy (getField opts ''upsert'')"
      "toElement (upsertPayload upd) = Some d" "fst (assignId env (entropy st) d) = Inr d'"
    from kd [OF this] show "kept d'" by simp
  next
    fix j d'
    assume "findIndex env q (loadData env st) = Inr (Some j)"
      "applyUpdate env (ownProps (loadData env st ! j)) upd = Inr d'"
    from ku [OF this] show "kept (Plain d')" by simp
  qed
  then consider
    (same) "loadData env st' = loadData env st"
    | (ins) d d' where "findIndex env q (loadData env st) = Inr None" "truthy (getField opts ''upsert'')"
        "toElement (upsertPayload upd) = Some d"
        "fst (assignId env (entropy st) d) = Inr d'" "loadData env st' = loadData env st @ [d']"
    | (upd) j d' where "findIndex env q (loadData env st) = Inr (Some j)" "j < length (loadData env st)"
        "applyUpdate env (ownProps (loadData env st ! j)) upd = Inr d'"
        "loadData env st' = (loadData env st)[j := Plain d']"
    by blast
  then show ?thesis
  proof cases
    case same
    with un k i UpdateOne show ?thesis by (simp add: perform_def uniqueIds_def storedIds_def)
  next
    case ins
    from kd [OF ins(1,2,3,4)] un k ins(5) i UpdateOne show ?thesis
      by (simp add: perform_def uniqueIds_def storedIds_def)
  next
    case upd
    from ku [OF upd(1,3)] have nt: "\<not> touchesId upd" and kp: "kept (Plain d')" by simp_all
    from applyUpdate_element_id [OF nt upd(3)] upd(2,4)
    have "idsOf (loadData env st') = idsOf (loadData env st)"
      by (simp add: map_update list_update_same_conv)
    moreover from k kp upd(4) have "list_all kept (loadData env st')" by (simp add: list_all_update)
    ultimately show ?thesis using un i UpdateOne
      by (simp add: perform_def uniqueIds_def storedIds_def)
  qed
next
  case (UpdateMany q upd)
  obtain r st' where i: "updateMany env st q upd = (r, st')" by (cases "updateMany env st q upd")
  from ad UpdateMany have nt: "\<not> touchesId upd"
    and ku: "list_all (\<lambda>d. matchDocument env d q = Inr True \<longrightarrow> keptUpdate env kept upd d)
               (loadData env st)"
    by (simp_all add: admissible_def)
  from updateMany_load [OF rt nt i k ku] un i UpdateMany show ?thesis
    by (simp add: perform_def uniqueIds_def storedIds_def)
next
  case (DeleteOne q)
  obtain r st' where i: "deleteOne env st q = (r, st')" by (cases "deleteOne env st q")
  from deleteOne_load [OF rt i k] show ?thesis
  proof
    assume "loadData env st' = loadData env st"
    with un k i DeleteOne show ?thesis by (simp add: perform_def uniqueIds_def storedIds_def)
  next
    assume "\<exists>j. loadData env st' = take j (loadData env st) @ drop (Suc j) (loadData env st)"
    then obtain j where l: "loadData env st' = take j (loadData env st) @ drop (Suc j) (loadData env st)"
      by blast
    from un have "distinct (take j (idsOf (loadData env st)) @ drop (Suc j) (idsOf (loadData env st)))"
      unfolding uniqueIds_def storedIds_def by (rule distinct_remove_nth)
    moreover from k l have "list_all kept (loadData env st')"
      by (auto simp: list_all_iff dest: in_set_takeD in_set_dropD)
    ultimately show ?thesis using l i DeleteOne
      by (simp add: perform_def uniqueIds_def storedIds_def take_map drop_map)
  qed
next
  case (DeleteMany q)
  obtain r st' where i: "deleteMany env st q = (r, st')" by (cases "deleteMany env st q")
  from un have "distinct (idsOf (loadData env st))" by (simp add: uniqueIds_def storedIds_def)
  from deleteMany_load [OF rt i this k] i DeleteMany show ?thesis
    by (simp add: perform_def uniqueIds_def storedIds_def)
qed

lemma fixture_roundtrip:
  assumes "distinct (map fst table)"
  shows "codecRoundTrip (fixtureEnv table noEncryption)"
proof -
  have "map_of table b = Some r" if "map_of (map (\<lambda>p. (snd p, fst p)) table) r = Some b" for r b
  proof -
    from that have "(r, b) \<in> set (map (\<lambda>p. (snd p, fst p)) table)" by (rule map_of_SomeD)
    then have "(b, r) \<in> set table" by auto
    with assms show ?thesis by simp
  qed
  then show ?thesis
    by (simp add: codecRoundTrip_def fixtureEnv_def noEncryption_def decrypt_def encrypt_def)
qed

lemma codecRoundTrip_kept: "codecRoundTrip env \<Longrightarrow> keptRoundTrip env kept"
  unfolding codecRoundTrip_def keptRoundTrip_def by blast

text \<open>
  C2, amended. Let \<open>kept\<close> be a class of documents that the codec keeps: every snapshot
  of documents of the class reads back from the file as it was written. Identifier
  uniqueness is preserved along every sequence of collection operations (\<open>insertOne\<close>,
  \<open>insertMany\<close>, \<open>updateOne\<close>, \<open>updateMany\<close>, \<open>deleteOne\<close>, \<open>deleteMany\<close>) that
  starts from stored documents of the class with pairwise distinct identifiers, and in
  which every insert, also the insert of an upsert, brings documents of the class whose
  identifiers, once assigned, are pairwise distinct and differ from the stored ones, and
  every applied update leaves \<open>_id\<close> unwritten and makes a document of the class. The
  operations themselves make no check for a duplicate.
\<close>

theorem unique_ids_preserved:
  assumes "keptRoundTrip env kept" and "uniqueIds env st"
    and "list_all kept (loadData env st)" and "admissibleAll env kept st opers"
  shows "uniqueIds env (performAll env st opers)"
  using assms(2,3,4)
proof (induction opers arbitrary: st)
  case Nil
  then show ?case by simp
next
  case (Cons oper opers)
  from Cons.prems have "uniqueIds env (perform env st oper)
      \<and> list_all kept (loadData env (perform env st oper))"
    by (intro perform_unique [OF assms(1)]) simp_all
  with Cons.IH Cons.prems show ?case by simp
qed

text \<open>
  C2, as stated, fails. \<open>insertOne\<close> of a document whose \<open>_id\<close> is that of the stored
  document John appends it; the stored array then has two documents with that \<open>_id\<close>.
  \<open>insertMany\<close> of an array that lists one new object twice stores it twice, under the
  one identifier it was given. An upsert whose query asks for \<open>_id\<close> by an ObjectId
  finds no document (an ObjectId is compared as an operator object) and inserts a second
  document with the \<open>_id\<close> of John.
\<close>

theorem insertOne_duplicate_id_counterexample:
  "uniqueIds (fixtureEnv opsTable noEncryption) (storeOf [1])
   \<and> loadData (fixtureEnv opsTable noEncryption)
        (snd (insertOne (fixtureEnv opsTable noEncryption) (storeOf [1]) (JObj docDup)))
       = [Plain docJohn, Plain docJane, Plain docMary, Plain docDup]
   \<and> elemGet (Plain docDup) ''_id'' = elemGet (Plain docJohn) ''_id''
   \<and> \<not> uniqueIds (fixtureEnv opsTable noEncryption)
        (snd (insertOne (fixtureEnv opsTable noEncryption) (storeOf [1]) (JObj docDup)))
   \<and> loadData (fixtureEnv opsTable noEncryption)
        (snd (insertMany (fixtureEnv opsTable noEncryption) (storeOf [1])
                [Plain [(''name'', JStr ''Zed'')]] [0, 0]))
       = [Plain docJohn, Plain docJane, Plain docMary, Plain docZed, Plain docZed]
   \<and> \<not> uniqueIds (fixtureEnv opsTable noEncryption)
        (snd (insertMany (fixtureEnv opsTable noEncryption) (storeOf [1])
                [Plain [(''name'', JStr ''Zed'')]] [0, 0]))
   \<and> loadData (fixtureEnv opsTable noEncryption)
        (snd (updateOne (fixtureEnv opsTable noEncryption) (storeOf [1])
                (JObj [(''_id'', JOid ''a1'')]) docDup [(''upsert'', JBool True)]))
       = [Plain docJohn, Plain docJane, Plain docMary, Plain docDup]"
proof -
  let ?E = "fixtureEnv opsTable noEncryption"
  have l: "loadData ?E (storeOf [1]) = [Plain docJohn, Plain docJane, Plain docMary]"
    by (simp add: fixtureEnv_def noEncryption_def storeOf_def opsTable_def loadData_def
        readSnapshot_def decrypt_def)
  have u: "uniqueIds ?E (storeOf [1])"
    by (simp add: uniqueIds_def storedIds_def l sample_docs getField_def)
  have i: "insertOne ?E (storeOf [1]) (JObj docDup)
      = (Inr (Plain docDup), \<lparr> dataFile = Some [3], dataWritable = True, indexState = (), entropy = 0 \<rparr>)"
    by (simp add: insertOne_def insertDocument_def assignId_def saveData_def encrypt_def
        fixtureEnv_def noEncryption_def storeOf_def opsTable_def loadData_def readSnapshot_def
        decrypt_def getField_def sample_docs docZed_def docDup_def)
  have l3: "loadData ?E \<lparr> dataFile = Some [3], dataWritable = True, indexState = (), entropy = 0 \<rparr>
      = [Plain docJohn, Plain docJane, Plain docMary, Plain docDup]"
    by (simp add: fixtureEnv_def noEncryption_def opsTable_def loadData_def readSnapshot_def
        decrypt_def)
  have m: "insertMany ?E (storeOf [1]) [Plain [(''name'', JStr ''Zed'')]] [0, 0]
      = (Inr [Plain docZed, Plain docZed],
         \<lparr> dataFile = Some [5], dataWritable = True, indexState = (), entropy = 1 \<rparr>)"
    by (simp add: insertMany_def assignId_def saveData_def encrypt_def
        fixtureEnv_def noEncryption_def storeOf_def opsTable_def loadData_def readSnapshot_def
        decrypt_def getField_def sample_docs docZed_def docDup_def)
  have l5: "loadData ?E \<lparr> dataFile = Some [5], dataWritable = True, indexState = (), entropy = n \<rparr>
      = [Plain docJohn, Plain docJane, Plain docMary, Plain docZed, Plain docZed]" for n
    by (simp add: fixtureEnv_def noEncryption_def opsTable_def loadData_def readSnapshot_def
        decrypt_def)
  have f: "findIndex ?E (JObj [(''_id'', JOid ''a1'')]) (loadData ?E (storeOf [1])) = Inr None"
    unfolding l by (simp add: matchField_def matchOperator_def sample_docs getField_def)
  have p: "upsertPayload docDup = JObj docDup"
    by (simp add: upsertPayload_def docDup_def getField_def)
  have o: "updateOne ?E (storeOf [1]) (JObj [(''_id'', JOid ''a1'')]) docDup [(''upsert'', JBool True)]
      = (Inr (Some (Plain docDup)),
         \<lparr> dataFile = Some [3], dataWritable = True, indexState = (), entropy = 0 \<rparr>)"
    using f i p by (simp add: updateOne_def upsertPayload_def getField_def)
  have e: "elemGet (Plain docDup) ''_id'' = elemGet (Plain docJohn) ''_id''"
    by (simp add: docDup_def docJohn_def getField_def)
  have n3: "\<not> uniqueIds ?E \<lparr> dataFile = Some [3], dataWritable = True, indexState = (), entropy = 0 \<rparr>"
    by (simp add: uniqueIds_def storedIds_def l3 sample_docs docDup_def getField_def)
  have n5: "\<not> uniqueIds ?E \<lparr> dataFile = Some [5], dataWritable = True, indexState = (), entropy = 1 \<rparr>"
    by (simp add: uniqueIds_def storedIds_def l5 sample_docs docZed_def getField_def)
  from u l3 e n3 l5 n5 show ?thesis
    unfolding i m o snd_conv by blast
qed

theorem unique_ids_preserved_witness:
  "loadData (fixtureEnv opsTable noEncryption)
      (performAll (fixtureEnv opsTable noEncryption) (storeOf [1])
         [InsertOne (JObj [(''name'', JStr ''Zed'')]), DeleteOne (JObj [(''name'', JStr ''John'')])])
     = [Plain docJane, Plain docMary, Plain docZed]
   \<and> uniqueIds (fixtureEnv opsTable noEncryption)
      (performAll (fixtureEnv opsTable noEncryption) (storeOf [1])
         [InsertOne (JObj [(''name'', JStr ''Zed'')]), DeleteOne (JObj [(''name'', JStr ''John'')])])"
proof -
  let ?E = "fixtureEnv opsTable noEncryption"
  let ?ops = "[InsertOne (JObj [(''name'', JStr ''Zed'')]), DeleteOne (JObj [(''name'', JStr ''John'')])]"
  have rt: "keptRoundTrip ?E (\<lambda>d. True)"
    by (rule codecRoundTrip_kept, rule fixture_roundtrip) (simp add: opsTable_def)
  have l: "loadData ?E (storeOf [1]) = [Plain docJohn, Plain docJane, Plain docMary]"
    by (simp add: fixtureEnv_def noEncryption_def storeOf_def opsTable_def loadData_def
        readSnapshot_def decrypt_def)
  have un: "uniqueIds ?E (storeOf [1])"
    by (simp add: uniqueIds_def storedIds_def l sample_docs getField_def)
  have k: "list_all (\<lambda>d. True) (loadData ?E (storeOf [1]))" by (simp add: list_all_iff)
  have p1: "perform ?E (storeOf [1]) (InsertOne (JObj [(''name'', JStr ''Zed'')]))
      = \<lparr> dataFile = Some [2], dataWritable = True, indexState = (), entropy = 1 \<rparr>"
    by (simp add: perform_def insertOne_def insertDocument_def assignId_def
        saveData_def encrypt_def fixtureEnv_def noEncryption_def storeOf_def opsTable_def
        loadData_def readSnapshot_def decrypt_def getField_def sample_docs docZed_def docDup_def)
  have p2: "perform ?E \<lparr> dataFile = Some [2], dataWritable = True, indexState = (), entropy = 1 \<rparr>
        (DeleteOne (JObj [(''name'', JStr ''John'')]))
      = \<lparr> dataFile = Some [4], dataWritable = True, indexState = (), entropy = 1 \<rparr>"
    by (simp add: perform_def deleteOne_def matchField_def
        saveData_def encrypt_def fixtureEnv_def noEncryption_def opsTable_def
        loadData_def readSnapshot_def decrypt_def getField_def sample_docs docZed_def docDup_def)
  have a1: "assignId ?E (entropy (storeOf [1])) (Plain [(''name'', JStr ''Zed'')])
      = (Inr (Plain docZed), 1)"
    by (simp add: assignId_def fixtureEnv_def storeOf_def getField_def docZed_def)
  have ad: "admissibleAll ?E (\<lambda>d. True) (storeOf [1]) ?ops"
    unfolding admissibleAll.simps p1
    by (simp add: admissible_def freshIds_def storedIds_def a1 l sample_docs docZed_def
        getField_def)
  have r: "loadData ?E (performAll ?E (storeOf [1]) ?ops) = [Plain docJane, Plain docMary, Plain docZed]"
    unfolding performAll.simps p1 p2
    by (simp add: fixtureEnv_def noEncryption_def opsTable_def loadData_def readSnapshot_def decrypt_def)
  from unique_ids_preserved [OF rt un k ad] r show ?thesis by simp
qed

subsection \<open>The file-backed index holds no identifier twice under a key\<close>

lemma list_all_deleteField: "list_all P xs \<Longrightarrow> list_all P (deleteField xs k)"
  by (simp add: deleteField_def list_all_iff)

lemma list_all_setField: "list_all P xs \<Longrightarrow> P (k, v) \<Longrightarrow> list_all P (setField xs k v)"
  by (induction xs) auto

lemma list_all_map_of: "list_all P xs \<Longrightarrow> map_of xs k = Some v \<Longrightarrow> P (k, v)"
  by (auto simp: list_all_iff dest: map_of_SomeD)

lemma removeOld_distinct:
  assumes "removeOld env dat k old = Inr dat'" and "list_all (\<lambda>kv. distinct (snd kv)) dat"
  shows "list_all (\<lambda>kv. distinct (snd kv)) dat'"
proof (cases "map_of dat k")
  case None
  with assms show ?thesis by (simp add: removeOld_def)
next
  case (Some ids)
  from list_all_map_of [OF assms(2) Some] have d: "distinct ids" by simp
  show ?thesis
  proof (cases "ids = []")
    case True
    with assms Some show ?thesis by (auto simp: removeOld_def list_all_deleteField)
  next
    case False
    with assms(1) Some obtain oldId where os: "idString env old = Inr oldId"
      by (cases "idString env old") (auto simp: removeOld_def)
    let ?f = "filter (\<lambda>i. i \<noteq> oldId) ids"
    from assms(1) Some False os have "dat' = deleteField dat k \<or> dat' = setField dat k ?f"
      by (auto simp: removeOld_def Let_def split: if_splits)
    moreover from d have "distinct ?f" by simp
    ultimately show ?thesis using assms(2)
      by (auto intro: list_all_deleteField list_all_setField)
  qed
qed

lemma addNew_distinct:
  assumes "addNew env dat k new = Inr dat'" and "list_all (\<lambda>kv. distinct (snd kv)) dat"
  shows "list_all (\<lambda>kv. distinct (snd kv)) dat'"
proof -
  let ?dat1 = "(case map_of dat k of None \<Rightarrow> setField dat k [] | Some ids \<Rightarrow> dat)"
  have d1: "list_all (\<lambda>kv. distinct (snd kv)) ?dat1"
    using assms(2) by (cases "map_of dat k") (auto intro: list_all_setField)
  let ?ids = "(case map_of ?dat1 k of None \<Rightarrow> [] | Some ids \<Rightarrow> ids)"
  have di: "distinct ?ids"
  proof (cases "map_of ?dat1 k")
    case None
    then show ?thesis by simp
  next
    case (Some ids)
    from list_all_map_of [OF d1 Some] Some show ?thesis by simp
  qed
  from assms(1) obtain newId where ns: "idString env new = Inr newId"
    by (cases "idString env new") (auto simp: addNew_def Let_def)
  from assms(1) ns have "(dat' = setField ?dat1 k (?ids @ [newId]) \<and> newId \<notin> set ?ids) \<or> dat' = ?dat1"
    by (auto simp: addNew_def Let_def split: if_splits)
  then show ?thesis
  proof
    assume "dat' = setField ?dat1 k (?ids @ [newId]) \<and> newId \<notin> set ?ids"
    moreover from this di have "distinct (?ids @ [newId])" by simp
    ultimately show ?thesis using d1 by (auto intro: list_all_setField)
  next
    assume "dat' = ?dat1"
    with d1 show ?thesis by simp
  qed
qed

lemma updateIndexData_distinct:
  assumes "updateIndexData env indexData newDoc oldDoc = Inr indexData'"
    and "listsDistinct indexData"
  shows "listsDistinct indexData'"
proof (cases indexData)
  case (IndexFile meta dat)
  with assms(2) have d: "list_all (\<lambda>kv. distinct (snd kv)) dat" by (simp add: listsDistinct_def)
  let ?r = "(case oldDoc of None \<Rightarrow> Inr dat
             | Some old \<Rightarrow> removeOld env dat (getDocumentIndexKey env old (meta_fields meta)) old)"
  from assms(1) IndexFile obtain dat1 where r: "?r = Inr dat1"
    by (cases ?r) (auto simp: updateIndexData_def)
  have d1: "list_all (\<lambda>kv. distinct (snd kv)) dat1"
  proof (cases oldDoc)
    case None
    with r d show ?thesis by simp
  next
    case (Some old)
    with r have "removeOld env dat (getDocumentIndexKey env old (meta_fields meta)) old = Inr dat1"
      by simp
    from removeOld_distinct [OF this d] show ?thesis .
  qed
  from assms(1) IndexFile r obtain dat2 where
    a: "addNew env dat1 (getDocumentIndexKey env newDoc (meta_fields meta)) newDoc = Inr dat2"
    and i': "indexData' = IndexFile meta dat2"
    by (cases "addNew env dat1 (getDocumentIndexKey env newDoc (meta_fields meta)) newDoc")
      (auto simp: updateIndexData_def)
  from addNew_distinct [OF a d1] i' show ?thesis by (simp add: listsDistinct_def)
qed (use assms(1) in \<open>auto simp: updateIndexData_def\<close>)

lemma repairKeepsD:
  "repairKeeps env repair \<Longrightarrow> indexListsDistinct env dir \<Longrightarrow> repair dir name = Some dir'
   \<Longrightarrow> indexListsDistinct env dir'"
  unfolding repairKeeps_def by blast

lemma indexLists_cong: "ixFiles a = ixFiles b \<Longrightarrow> indexListsDistinct env a = indexListsDistinct env b"
  by (simp add: indexListsDistinct_def)

lemma written_file_distinct:
  assumes "codecRoundTrip env" and "bsonSerialize env r = Some b" and "listsDistinct r"
  shows "fileListsDistinct env (fst (encrypt env (dbEncryption env) n b))"
proof -
  from assms(1,2) have "bsonDeserialize env
      (decrypt env (dbEncryption env) (fst (encrypt env (dbEncryption env) n b))) = Some r"
    unfolding codecRoundTrip_def by blast
  with assms(3) show ?thesis by (simp add: fileListsDistinct_def)
qed

lemma updateFileIndex_distinct:
  assumes rt: "codecRoundTrip env" and rk: "repairKeeps env repair"
    and inv: "indexListsDistinct env dir"
    and u: "updateFileIndex env repair dir indexName newDoc oldDoc = Some dir'"
  shows "indexListsDistinct env dir'"
proof (cases "map_of (ixFiles dir) indexName")
  case None
  with u inv show ?thesis by (simp add: updateFileIndex_def)
next
  case (Some encryptedData)
  from inv have fl: "list_all (\<lambda>f. fileListsDistinct env (snd f)) (ixFiles dir)"
    by (simp add: indexListsDistinct_def)
  from list_all_map_of [OF fl Some] have f: "fileListsDistinct env encryptedData" by simp
  show ?thesis
  proof (cases "bsonDeserialize env (decrypt env (dbEncryption env) encryptedData)")
    case None
    with u Some have "repair dir indexName = Some dir'" by (simp add: updateFileIndex_def)
    from repairKeepsD [OF rk inv this] show ?thesis .
  next
    case p: (Some indexData)
    with f have ld: "listsDistinct indexData" by (simp add: fileListsDistinct_def)
    show ?thesis
    proof (cases "updateIndexData env indexData newDoc oldDoc")
      case (Inl e)
      with u Some p have "repair dir indexName = Some dir'" by (simp add: updateFileIndex_def)
      from repairKeepsD [OF rk inv this] show ?thesis .
    next
      case (Inr indexData')
      from updateIndexData_distinct [OF Inr ld] have ld': "listsDistinct indexData'" .
      show ?thesis
      proof (cases "bsonSerialize env indexData'")
        case None
        with u Some p Inr have "repair dir indexName = Some dir'" by (simp add: updateFileIndex_def)
        from repairKeepsD [OF rk inv this] show ?thesis .
      next
        case s: (Some b)
        obtain enc n where e: "encrypt env (dbEncryption env) (ixEntropy dir) b = (enc, n)"
          by (cases "encrypt env (dbEncryption env) (ixEntropy dir) b")
        show ?thesis
        proof (cases "ixWritable dir")
          case False
          with u Some p Inr s e have r: "repair (dir\<lparr>ixEntropy := n\<rparr>) indexName = Some dir'"
            by (simp add: updateFileIndex_def)
          from inv have "indexListsDistinct env (dir\<lparr>ixEntropy := n\<rparr>)"
            by (simp add: indexListsDistinct_def)
          from repairKeepsD [OF rk this r] show ?thesis .
        next
          case True
          with u Some p Inr s e have d': "dir' = dir\<lparr>ixFiles := setField (ixFiles dir) indexName enc,
                                              ixEntropy := n\<rparr>"
            by (simp add: updateFileIndex_def)
          from written_file_distinct [OF rt s ld', of "ixEntropy dir"] e
          have "fileListsDistinct env enc" by simp
          with fl show ?thesis unfolding d' indexListsDistinct_def
            by (simp add: list_all_setField)
        qed
      qed
    qed
  qed
qed


lemma scanIndexFiles_distinct:
  assumes rk: "repairKeeps env repair"
  shows "indexListsDistinct env dir
    \<Longrightarrow> scanIndexFiles env repair collectionName dir files indexes = Some (indexes', dir')
    \<Longrightarrow> indexListsDistinct env dir'"
proof (induction files arbitrary: dir indexes)
  case Nil
  then show ?case by simp
next
  case (Cons fname files)
  show ?case
  proof (cases "map_of (ixFiles dir) fname")
    case None
    with Cons.prems(2) have "scanIndexFiles env repair collectionName dir files indexes = Some (indexes', dir')"
      by simp
    from Cons.IH [OF Cons.prems(1) this] show ?thesis .
  next
    case (Some encryptedData)
    show ?thesis
    proof (cases "bsonDeserialize env (decrypt env (dbEncryption env) encryptedData)")
      case None
      show ?thesis
      proof (cases "repair dir fname")
        case n: None
        with Cons.prems(2) Some None show ?thesis by simp
      next
        case r: (Some dir1)
        with Cons.prems(2) Some None
        have "scanIndexFiles env repair collectionName dir1 files indexes = Some (indexes', dir')"
          by simp
        from Cons.IH [OF repairKeepsD [OF rk Cons.prems(1) r] this] show ?thesis .
      qed
    next
      case p: (Some parsed)
      from Cons.prems(2) Some p obtain indexes1 where
        "scanIndexFiles env repair collectionName dir files indexes1 = Some (indexes', dir')"
        by (cases parsed) (auto split: if_splits)
      from Cons.IH [OF Cons.prems(1) this] show ?thesis .
    qed
  qed
qed

lemma updateFileIndexes_distinct:
  assumes rt: "codecRoundTrip env" and rk: "repairKeeps env repair"
  shows "indexListsDistinct env dir
    \<Longrightarrow> updateFileIndexes env repair dir indexes newDoc oldDoc = Some dir'
    \<Longrightarrow> indexListsDistinct env dir'"
proof (induction indexes arbitrary: dir)
  case Nil
  then show ?case by simp
next
  case (Cons index indexes)
  from Cons.prems(2) obtain dir1 where
    u: "updateFileIndex env repair dir (meta_name index) newDoc oldDoc = Some dir1"
    and r: "updateFileIndexes env repair dir1 indexes newDoc oldDoc = Some dir'"
    by (auto split: option.splits)
  from Cons.IH [OF updateFileIndex_distinct [OF rt rk Cons.prems(1) u] r] show ?case .
qed

lemma updateIndex_distinct:
  assumes rt: "codecRoundTrip env" and rk: "repairKeeps env repair"
    and inv: "indexListsDistinct env dir"
    and u: "updateIndex env repair dir collectionName newDoc oldDoc = Some dir'"
  shows "indexListsDistinct env dir'"
proof -
  from u obtain indexes dir1 where
    g: "scanIndexFiles env repair collectionName dir (map fst (ixFiles dir)) [] = Some (indexes, dir1)"
    and f: "updateFileIndexes env repair dir1 indexes newDoc oldDoc = Some dir'"
    by (auto simp: updateIndex_def getCollectionIndexes_def split: option.splits)
  from updateFileIndexes_distinct [OF rt rk scanIndexFiles_distinct [OF rk inv g] f] show ?thesis .
qed

lemma buildIndex_distinct:
  assumes rt: "codecRoundTrip env" and rk: "repairKeeps env repair"
  shows "indexListsDistinct env dir
    \<Longrightarrow> buildIndex env repair dir collectionName documents = Some dir'
    \<Longrightarrow> indexListsDistinct env dir'"
proof (induction documents arbitrary: dir)
  case Nil
  then show ?case by simp
next
  case (Cons doc documents)
  from Cons.prems(2) obtain dir1 where
    u: "updateIndex env repair dir collectionName doc None = Some dir1"
    and r: "buildIndex env repair dir1 collectionName documents = Some dir'"
    by (auto split: option.splits)
  from Cons.IH [OF updateIndex_distinct [OF rt rk Cons.prems(1) u] r] show ?case .
qed

lemma createIndex_distinct:
  assumes rt: "codecRoundTrip env" and rk: "repairKeeps env repair"
    and inv: "indexListsDistinct env dir"
    and c: "createIndex env repair dir collectionName fieldArray = Some (e, dir')"
  shows "indexListsDistinct env dir'"
proof -
  let ?name = "joinWith ''_'' fieldArray"
  let ?meta = "\<lparr> meta_name = ?name, meta_collection = collectionName, meta_fields = fieldArray \<rparr>"
  show ?thesis
  proof (cases "bsonSerialize env (IndexFile ?meta [])")
    case None
    with c inv show ?thesis by (simp add: createIndex_def)
  next
    case (Some b)
    obtain enc n where en: "encrypt env (dbEncryption env) (ixEntropy dir) b = (enc, n)"
      by (cases "encrypt env (dbEncryption env) (ixEntropy dir) b")
    show ?thesis
    proof (cases "ixWritable dir")
      case False
      with c Some en have "dir' = dir\<lparr>ixEntropy := n\<rparr>" by (simp add: createIndex_def)
      with inv show ?thesis by (simp add: indexListsDistinct_def)
    next
      case True
      let ?dir1 = "dir\<lparr>ixFiles := setField (ixFiles dir) ?name enc, ixEntropy := n\<rparr>"
      have "listsDistinct (IndexFile ?meta [])" by (simp add: listsDistinct_def)
      from written_file_distinct [OF rt Some this, of "ixEntropy dir"] en
      have "fileListsDistinct env enc" by simp
      with inv have i1: "indexListsDistinct env ?dir1"
        by (simp add: indexListsDistinct_def list_all_setField)
      show ?thesis
      proof (cases "ixRegistered dir")
        case False
        with c Some en True have "dir' = ?dir1" by (simp add: createIndex_def)
        with i1 show ?thesis by simp
      next
        case r: True
        with c Some en True have
          "buildIndex env repair ?dir1 collectionName (readSnapshot env (ixDataFile dir)) = Some dir'"
          by (auto simp: createIndex_def split: option.splits)
        from buildIndex_distinct [OF rt rk i1 this] show ?thesis .
      qed
    qed
  qed
qed

lemma repairIndexFile_keeps:
  assumes rt: "codecRoundTrip env"
  shows "repairKeeps env (repairIndexFile depth env collectionName)"
proof (induction depth)
  case 0
  show ?case by (simp add: repairKeeps_def)
next
  case (Suc depth)
  show ?case
    unfolding repairKeeps_def
  proof (intro allI impI)
    fix dir name dir'
    assume inv: "indexListsDistinct env dir"
      and r: "repairIndexFile (Suc depth) env collectionName dir name = Some dir'"
    show "indexListsDistinct env dir'"
    proof (cases "map_of (ixFiles dir) name")
      case None
      with r inv show ?thesis by simp
    next
      case (Some b)
      let ?dir0 = "dir\<lparr>ixFiles := deleteField (ixFiles dir) name\<rparr>"
      from inv have i0: "indexListsDistinct env ?dir0"
        by (simp add: indexListsDistinct_def list_all_deleteField)
      from r Some obtain e where
        "createIndex env (repairIndexFile depth env collectionName) ?dir0 collectionName
           (splitOn (CHR ''_'') name) = Some (e, dir')"
        by (auto split: option.splits)
      from createIndex_distinct [OF rt Suc.IH i0 this] show ?thesis .
    qed
  qed
qed

text \<open>
  C10. After every sequence of \<open>updateFileIndex\<close> calls on a directory of index files
  whose identifier lists are duplicate-free (an empty directory, or the files
  \<open>createIndex\<close> writes), the identifier lists are duplicate-free again: under every
  composite key of every index file each identifier occurs at most once. The calls may
  take the repair path; a written file is assumed to read back as written.
\<close>

theorem file_index_lists_distinct:
  assumes "codecRoundTrip env" and "indexListsDistinct env dir"
    and "updateFileIndexCalls depth env collectionName dir calls = Some dir'"
  shows "indexListsDistinct env dir'"
  using assms(2,3)
proof (induction calls arbitrary: dir)
  case Nil
  then show ?case by simp
next
  case (Cons call calls)
  obtain indexName newDoc oldDoc where call: "call = (indexName, newDoc, oldDoc)" by (cases call)
  from Cons.prems(2) call obtain dir1 where
    u: "updateFileIndex env (repairIndexFile depth env collectionName) dir indexName newDoc oldDoc
          = Some dir1"
    and r: "updateFileIndexCalls depth env collectionName dir1 calls = Some dir'"
    by (auto split: option.splits)
  from updateFileIndex_distinct [OF assms(1) repairIndexFile_keeps [OF assms(1)] Cons.prems(1) u]
  have "indexListsDistinct env dir1" .
  from Cons.IH [OF this r] show ?case .
qed


theorem file_index_lists_distinct_witness:
  "updateFileIndexCalls 1 (fixtureEnv indexTable noEncryption) ''users'' (indexDirOf [10])
         [(''name'', Plain docJohn, None), (''name'', Plain docJohn, None), (''name'', Plain docJane, None)]
     = Some (indexDirOf [12])
   \<and> bsonDeserialize (fixtureEnv indexTable noEncryption) [12]
       = Some (IndexFile nameIndexMeta [(''John'', [''a1'']), (''Jane'', [''a2''])])
   \<and> indexListsDistinct (fixtureEnv indexTable noEncryption) (indexDirOf [12])"
proof -
  let ?E = "fixtureEnv indexTable noEncryption"
  have rt: "codecRoundTrip ?E" by (rule fixture_roundtrip) (simp add: indexTable_def)
  have i0: "indexListsDistinct ?E (indexDirOf [10])"
    by (simp add: indexListsDistinct_def fileListsDistinct_def listsDistinct_def indexDirOf_def
        fixtureEnv_def noEncryption_def decrypt_def indexTable_def)
  have dec: "decrypt ?E (dbEncryption ?E) b = b" for b
    by (simp add: decrypt_def fixtureEnv_def noEncryption_def)
  have enc: "encrypt ?E (dbEncryption ?E) n b = (b, n)" for b n
    by (simp add: encrypt_def fixtureEnv_def noEncryption_def)
  have des: "bsonDeserialize ?E [10] = Some (IndexFile nameIndexMeta [])"
    "bsonDeserialize ?E [11] = Some (IndexFile nameIndexMeta [(''John'', [''a1''])])"
    "bsonDeserialize ?E [12]
       = Some (IndexFile nameIndexMeta [(''John'', [''a1'']), (''Jane'', [''a2''])])"
    by (simp_all add: fixtureEnv_def indexTable_def)
  have ser: "bsonSerialize ?E (IndexFile nameIndexMeta [(''John'', [''a1''])]) = Some [11]"
    "bsonSerialize ?E (IndexFile nameIndexMeta [(''John'', [''a1'']), (''Jane'', [''a2''])])
       = Some [12]"
    by (simp_all add: fixtureEnv_def indexTable_def)
  have kj: "getDocumentIndexKey ?E (Plain docJohn) (meta_fields nameIndexMeta) = ''John''"
    by (simp add: getDocumentIndexKey_def getNestedValue_def getProperty_def getField_def
        docJohn_def fixtureEnv_def nameIndexMeta_def)
  have ka: "getDocumentIndexKey ?E (Plain docJane) (meta_fields nameIndexMeta) = ''Jane''"
    by (simp add: getDocumentIndexKey_def getNestedValue_def getProperty_def getField_def
        docJane_def fixtureEnv_def nameIndexMeta_def)
  have ij: "idString ?E (Plain docJohn) = Inr ''a1''"
    by (simp add: idString_def getField_def docJohn_def fixtureEnv_def)
  have ia: "idString ?E (Plain docJane) = Inr ''a2''"
    by (simp add: idString_def getField_def docJane_def fixtureEnv_def)
  have u1: "updateIndexData ?E (IndexFile nameIndexMeta []) (Plain docJohn) None
      = Inr (IndexFile nameIndexMeta [(''John'', [''a1''])])"
    by (simp add: updateIndexData_def addNew_def kj ij)
  have u2: "updateIndexData ?E (IndexFile nameIndexMeta [(''John'', [''a1''])]) (Plain docJohn) None
      = Inr (IndexFile nameIndexMeta [(''John'', [''a1''])])"
    by (simp add: updateIndexData_def addNew_def kj ij)
  have u3: "updateIndexData ?E (IndexFile nameIndexMeta [(''John'', [''a1''])]) (Plain docJane) None
      = Inr (IndexFile nameIndexMeta [(''John'', [''a1'']), (''Jane'', [''a2''])])"
    by (simp add: updateIndexData_def addNew_def ka ia)
  have s1: "updateFileIndex ?E R (indexDirOf [10]) ''name'' (Plain docJohn) None = Some (indexDirOf [11])" for R
    by (simp add: updateFileIndex_def indexDirOf_def dec enc des ser u1)
  have s2: "updateFileIndex ?E R (indexDirOf [11]) ''name'' (Plain docJohn) None = Some (indexDirOf [11])" for R
    by (simp add: updateFileIndex_def indexDirOf_def dec enc des ser u2)
  have s3: "updateFileIndex ?E R (indexDirOf [11]) ''name'' (Plain docJane) None = Some (indexDirOf [12])" for R
    by (simp add: updateFileIndex_def indexDirOf_def dec enc des ser u3)
  have run: "updateFileIndexCalls 1 ?E ''users'' (indexDirOf [10])
         [(''name'', Plain docJohn, None), (''name'', Plain docJohn, None), (''name'', Plain docJane, None)]
     = Some (indexDirOf [12])"
    by (simp add: s1 s2 s3)
  from file_index_lists_distinct [OF rt i0 run] run des(3) show ?thesis by simp
qed

end
